theory Spec2Isabelle
  imports Main "HOL-Library.Product_Lexorder"
begin

section \<open>The history import helper of the Chatwoot integration\<close>

text \<open>
  The repository holds three revisions of the class \<^verbatim>\<open>ChatwootImport\<close>:
  \<^item> revision A: \<^verbatim>\<open>chatwoot-import-helper.ts\<close>, lines 1 to 364 (label, tag and taggings;
    \<^verbatim>\<open>sliceIntoChunks\<close> builds the slices and returns \<^verbatim>\<open>res.flat()\<close>);
  \<^item> revision B: \<^verbatim>\<open>chatwoot-import-helper.ts\<close>, lines 365 to 750 (\<^verbatim>\<open>sliceIntoChunks\<close> is
    \<^verbatim>\<open>messages.splice(0, chunkSize)\<close>; the message insert has an \<^verbatim>\<open>ON CONFLICT\<close> clause);
  \<^item> revision C: \<^verbatim>\<open>unnamed/part_000\<close> (\<^verbatim>\<open>sliceIntoChunks\<close> is
    \<^verbatim>\<open>array.slice(0, chunkSize)\<close>; contact and conversation come from one statement).

  A function that is the same in the three revisions is modelled once, under its own name.
  A function that differs carries the revision as a suffix (\<open>_A\<close>, \<open>_B\<close>, \<open>_C\<close>).
\<close>

subsection \<open>JavaScript values\<close>

text \<open>
  The values that reach the database as bind parameters or come back in result rows.
  \<open>truthy\<close> is the coercion of \<^verbatim>\<open>if (x)\<close>, \<^verbatim>\<open>!x\<close> and \<^verbatim>\<open>x || y\<close>.
\<close>

datatype jsval = Undefined | Null | Num int | Str string

fun truthy :: "jsval \<Rightarrow> bool" where
  "truthy Undefined = False"
| "truthy Null = False"
| "truthy (Num n) = (n \<noteq> 0)"
| "truthy (Str s) = (s \<noteq> [])"

text \<open>\<^verbatim>\<open>x || y\<close> on values.\<close>

definition js_or :: "jsval \<Rightarrow> jsval \<Rightarrow> jsval" where
  "js_or x y = (if truthy x then x else y)"

subsection \<open>Records of the messaging session\<close>

text \<open>
  \<^verbatim>\<open>ContactRaw\<close>: \<^verbatim>\<open>id\<close> (the session identifier, \<^verbatim>\<open>"<number>@<domain>"\<close>) and
  \<^verbatim>\<open>pushName\<close>. \<^verbatim>\<open>MessageRaw\<close>: \<^verbatim>\<open>key.remoteJid\<close>, \<^verbatim>\<open>messageTimestamp\<close>, the content
  object \<^verbatim>\<open>message\<close> (absent when \<open>None\<close>), \<^verbatim>\<open>pushName\<close>, \<^verbatim>\<open>messageText\<close> (read by
  revision C) and \<^verbatim>\<open>from\<close> (read by revision A).
\<close>

record ContactRaw =
  cr_id :: string
  cr_pushName :: jsval

record MessageContent =
  mc_conversation :: jsval
  mc_extendedText :: jsval

record MessageRaw =
  mr_remoteJid :: string
  mr_messageTimestamp :: int
  mr_message :: "MessageContent option"
  mr_pushName :: jsval
  mr_messageText :: jsval
  mr_from :: string

record InstanceDto =
  instanceName :: string

text \<open>
  \<^verbatim>\<open>`+${id.split('@')[0]}`\<close>: a plus sign and the part of the identifier before the first
  \<^verbatim>\<open>@\<close> (the whole identifier when it has none).
\<close>

definition splitAt0 :: "string \<Rightarrow> string" where
  "splitAt0 s = takeWhile (\<lambda>c. c \<noteq> CHR ''@'') s"

definition phoneOf :: "string \<Rightarrow> string" where
  "phoneOf jid = CHR ''+'' # splitAt0 jid"

subsection \<open>The staging store\<close>

text \<open>
  The three private maps of the class, keyed by \<^verbatim>\<open>instance.instanceName\<close>. The arrays
  they hold are created by \<^verbatim>\<open>concat\<close> (a fresh array each time) and no method hands one
  out, so an array is reachable from one key only; the importers mutate the array they
  got from the map in place (\<^verbatim>\<open>sort\<close>, \<^verbatim>\<open>splice\<close>), which the model writes back to the
  entry of that key at the point of the mutation.
\<close>

record ChatwootImport =
  repositoryMessagesCache :: "string \<rightharpoonup> string set"
  historyMessages :: "string \<rightharpoonup> MessageRaw list"
  historyContacts :: "string \<rightharpoonup> ContactRaw list"

definition getRepositoryMessagesCache :: "ChatwootImport \<Rightarrow> InstanceDto \<Rightarrow> string set option" where
  "getRepositoryMessagesCache st inst = repositoryMessagesCache st (instanceName inst)"

definition setRepositoryMessagesCache ::
  "ChatwootImport \<Rightarrow> InstanceDto \<Rightarrow> string set \<Rightarrow> ChatwootImport" where
  "setRepositoryMessagesCache st inst cache =
     st\<lparr>repositoryMessagesCache := (repositoryMessagesCache st)(instanceName inst \<mapsto> cache)\<rparr>"

definition deleteRepositoryMessagesCache :: "ChatwootImport \<Rightarrow> InstanceDto \<Rightarrow> ChatwootImport" where
  "deleteRepositoryMessagesCache st inst =
     st\<lparr>repositoryMessagesCache := (repositoryMessagesCache st)(instanceName inst := None)\<rparr>"

definition addHistoryMessages ::
  "ChatwootImport \<Rightarrow> InstanceDto \<Rightarrow> MessageRaw list \<Rightarrow> ChatwootImport" where
  "addHistoryMessages st inst messagesRaw =
     (let actualValue = (case historyMessages st (instanceName inst) of
                           Some ms \<Rightarrow> ms | None \<Rightarrow> [])
      in st\<lparr>historyMessages := (historyMessages st)(instanceName inst \<mapsto> actualValue @ messagesRaw)\<rparr>)"

definition addHistoryContacts ::
  "ChatwootImport \<Rightarrow> InstanceDto \<Rightarrow> ContactRaw list \<Rightarrow> ChatwootImport" where
  "addHistoryContacts st inst contactsRaw =
     (let actualValue = (case historyContacts st (instanceName inst) of
                           Some cs \<Rightarrow> cs | None \<Rightarrow> [])
      in st\<lparr>historyContacts := (historyContacts st)(instanceName inst \<mapsto> actualValue @ contactsRaw)\<rparr>)"

definition deleteHistoryMessages :: "ChatwootImport \<Rightarrow> InstanceDto \<Rightarrow> ChatwootImport" where
  "deleteHistoryMessages st inst =
     st\<lparr>historyMessages := (historyMessages st)(instanceName inst := None)\<rparr>"

definition deleteHistoryContacts :: "ChatwootImport \<Rightarrow> InstanceDto \<Rightarrow> ChatwootImport" where
  "deleteHistoryContacts st inst =
     st\<lparr>historyContacts := (historyContacts st)(instanceName inst := None)\<rparr>"

definition clearAll :: "ChatwootImport \<Rightarrow> InstanceDto \<Rightarrow> ChatwootImport" where
  "clearAll st inst =
     deleteHistoryContacts (deleteHistoryMessages (deleteRepositoryMessagesCache st inst) inst) inst"

definition getHistoryMessagesLenght :: "ChatwootImport \<Rightarrow> InstanceDto \<Rightarrow> nat" where
  "getHistoryMessagesLenght st inst =
     (case historyMessages st (instanceName inst) of Some ms \<Rightarrow> length ms | None \<Rightarrow> 0)"

text \<open>
  The in-place mutations of the importers: the array of the key \<open>name\<close> now holds \<open>xs\<close>.
\<close>

definition writeMessages :: "ChatwootImport \<Rightarrow> string \<Rightarrow> MessageRaw list \<Rightarrow> ChatwootImport" where
  "writeMessages st name xs = st\<lparr>historyMessages := (historyMessages st)(name \<mapsto> xs)\<rparr>"

definition writeContacts :: "ChatwootImport \<Rightarrow> string \<Rightarrow> ContactRaw list \<Rightarrow> ChatwootImport" where
  "writeContacts st name xs = st\<lparr>historyContacts := (historyContacts st)(name \<mapsto> xs)\<rparr>"

subsection \<open>The chunking helper\<close>

text \<open>
  \<^verbatim>\<open>arr.slice(i, j)\<close> for \<open>0 \<le> i \<le> j\<close>.
\<close>

definition js_slice :: "'a list \<Rightarrow> nat \<Rightarrow> nat \<Rightarrow> 'a list" where
  "js_slice arr i j = take (j - i) (drop i arr)"

text \<open>
  Revision A:
  \<^verbatim>\<open>for (let i = 0; i < arr.length; i += chunkSize) res.push(arr.slice(i, i + chunkSize));\<close>
  \<^verbatim>\<open>return res.flat();\<close>
  The loop does not advance when \<^verbatim>\<open>chunkSize\<close> is 0, so it is a partial function:
  \<open>None\<close> is the run that never returns.
\<close>

partial_function (option) sliceLoop_A ::
  "'a list \<Rightarrow> nat \<Rightarrow> nat \<Rightarrow> 'a list list \<Rightarrow> 'a list list option" where
  "sliceLoop_A arr chunkSize i res =
     (if i < length arr
      then sliceLoop_A arr chunkSize (i + chunkSize) (res @ [js_slice arr i (i + chunkSize)])
      else Some res)"

declare sliceLoop_A.simps [code]

definition sliceIntoChunks_A :: "'a list \<Rightarrow> nat \<Rightarrow> 'a list option" where
  "sliceIntoChunks_A arr chunkSize = map_option concat (sliceLoop_A arr chunkSize 0 [])"

text \<open>
  Revision B: \<^verbatim>\<open>return messages.splice(0, chunkSize);\<close> The first component is the array
  returned (the elements removed), the second what the argument array holds afterwards.
\<close>

definition sliceIntoChunks_B :: "'a list \<Rightarrow> nat \<Rightarrow> 'a list \<times> 'a list" where
  "sliceIntoChunks_B messages chunkSize = (take chunkSize messages, drop chunkSize messages)"

text \<open>Revision C: \<^verbatim>\<open>return array.slice(0, chunkSize);\<close> The argument is left as it is.\<close>

definition sliceIntoChunks_C :: "'a list \<Rightarrow> nat \<Rightarrow> 'a list" where
  "sliceIntoChunks_C array chunkSize = js_slice array 0 chunkSize"

text \<open>
  The chunks a loop of the shape
  \<^verbatim>\<open>let chunk = sliceIntoChunks(xs, n); while (chunk.length > 0) { ...; chunk = sliceIntoChunks(xs, n); }\<close>
  visits with the draining helper of revision B.
\<close>

function chunksVisited_B :: "'a list \<Rightarrow> nat \<Rightarrow> 'a list list" where
  "chunksVisited_B messages chunkSize =
     (if fst (sliceIntoChunks_B messages chunkSize) = [] then []
      else fst (sliceIntoChunks_B messages chunkSize)
           # chunksVisited_B (snd (sliceIntoChunks_B messages chunkSize)) chunkSize)"
  by pat_completeness auto
termination
  by (relation "measure (\<lambda>(messages, chunkSize). length messages)")
     (auto simp: sliceIntoChunks_B_def)

subsection \<open>The database collaborator\<close>

text \<open>
  \<^verbatim>\<open>pgClient.query(sql, binds)\<close> either throws or returns \<^verbatim>\<open>{rowCount, rows}\<close>. The
  database is not part of the repository: the importers are modelled over any behaviour
  of it, a function from the statement and the database state to the outcome and the new
  state. A row is the list of its columns.
\<close>

datatype error = Error string | TypeError string | RangeError string | PgError string

record QueryResult =
  rowCount :: nat
  rows :: "(string \<times> jsval) list list"

definition col :: "(string \<times> jsval) list \<Rightarrow> string \<Rightarrow> jsval" where
  "col r c = (case map_of r c of Some v \<Rightarrow> v | None \<Rightarrow> Undefined)"

text \<open>
  The statements the three revisions send, each with its bind values in the order of the
  source. The multi-row inserts carry one tuple per row of their \<^verbatim>\<open>VALUES\<close> list.
  \<^item> \<open>SqlCheckLabel\<close>: \<^verbatim>\<open>SELECT 1 FROM labels WHERE title = $1 AND account_id = $2\<close>
  \<^item> \<open>SqlInsertLabel\<close>: \<^verbatim>\<open>INSERT INTO labels (title, ..., account_id, ...) VALUES ($1, ..., $2, ...) RETURNING *\<close>
  \<^item> \<open>SqlCheckTag\<close>: \<^verbatim>\<open>SELECT id, taggings_count FROM tags WHERE name = $1\<close> (revision A)
  \<^item> \<open>SqlInsertTag\<close>: \<^verbatim>\<open>INSERT INTO tags (name, taggings_count) VALUES ($1, $2) RETURNING id\<close>
  \<^item> \<open>SqlUpdateTag\<close>: \<^verbatim>\<open>UPDATE tags SET taggings_count = taggings_count + $1 WHERE name = $2 RETURNING id\<close> (revision A)
  \<^item> \<open>SqlInsertTaggings_A\<close>: \<^verbatim>\<open>INSERT INTO taggings (...) VALUES ($1, 'Contact', $2, NULL, NULL, 'labels', NOW())\<close>
  \<^item> \<open>SqlInsertTaggings_C\<close>: the same with \<^verbatim>\<open>created_at = $3\<close>
  \<^item> \<open>SqlInsertContactsReturning\<close>: \<^verbatim>\<open>INSERT INTO contacts (name, phone_number, account_id, identifier, ...) VALUES (...), ... ON CONFLICT (identifier, account_id) DO UPDATE SET ... RETURNING id\<close> (revision A)
  \<^item> \<open>SqlInsertContacts\<close>: the same without \<^verbatim>\<open>RETURNING id\<close> (revisions B and C)
  \<^item> \<open>SqlUser_A\<close>: \<^verbatim>\<open>SELECT user_type, user_id FROM account_users WHERE account_id = $1 LIMIT 1\<close>
  \<^item> \<open>SqlUser_B\<close>: \<^verbatim>\<open>SELECT u.id as user_id, u.user_type FROM users u WHERE u.email = $1\<close>
  \<^item> \<open>SqlUser_C\<close>: \<^verbatim>\<open>SELECT user_type, user_id FROM users WHERE email = $1\<close>
  \<^item> \<open>SqlConversations_A\<close>: the conversations of the account created between two timestamps, joined with their contact's phone number
  \<^item> \<open>SqlInsertMessage_A\<close>: \<^verbatim>\<open>INSERT INTO messages (content, account_id, inbox_id, conversation_id, sender_id, created_at, updated_at) VALUES ($1, $2, $3, $4, $5, $6, NOW())\<close>
  \<^item> \<open>SqlSelectFks_B\<close>: \<^verbatim>\<open>SELECT c.phone_number, c.id as contact_id, con.id as conversation_id FROM contacts c LEFT JOIN conversations con ON con.contact_id = c.id WHERE c.phone_number = ANY ($1::text[])\<close>
  \<^item> \<open>SqlInsertContact_B\<close>: \<^verbatim>\<open>INSERT INTO contacts (name, phone_number, account_id, identifier, ...) VALUES ($1, $2, $3, $4, NOW(), NOW()) RETURNING id\<close>
  \<^item> \<open>SqlInsertConversation_B\<close>: \<^verbatim>\<open>INSERT INTO conversations (account_id, inbox_id, contact_id, status, ...) VALUES ($1, $2, $3, 'open', NOW(), NOW()) RETURNING id\<close>
  \<^item> \<open>SqlInsertMsgs_B\<close>: \<^verbatim>\<open>INSERT INTO messages (content, account_id, inbox_id, conversation_id, ..., sender_id, created_at, updated_at) VALUES (...), ... ON CONFLICT (conversation_id, created_at) DO UPDATE SET content = EXCLUDED.content\<close>;
    a row is (content, conversation id, timestamp, contact id)
  \<^item> \<open>SqlSelectOrCreate_C\<close>: the statement \<^verbatim>\<open>WITH ins1 AS (INSERT INTO contacts ... ON CONFLICT (identifier, account_id) DO NOTHING RETURNING id AS contact_id), ins2 AS (INSERT INTO conversations ... RETURNING id AS conversation_id, contact_id) SELECT ...\<close>
    with its seven bind values
  \<^item> \<open>SqlInsertMsgs_C\<close>: \<^verbatim>\<open>INSERT INTO messages (content, account_id, inbox_id, conversation_id, message_type, private, status, created_at, updated_at) VALUES (..., NOW(), NOW()), ...\<close>;
    a row is (account id, inbox id, conversation id, content)
\<close>

datatype stmt =
    SqlCheckLabel string jsval
  | SqlInsertLabel string jsval
  | SqlCheckTag string
  | SqlInsertTag string nat
  | SqlUpdateTag nat string
  | SqlInsertTaggings_A jsval jsval
  | SqlInsertTaggings_C jsval string jsval
  | SqlInsertContactsReturning jsval "(jsval \<times> string \<times> string) list"
  | SqlInsertContacts jsval "(jsval \<times> string \<times> string) list"
  | SqlUser_A jsval
  | SqlUser_B jsval
  | SqlUser_C jsval
  | SqlConversations_A jsval int int
  | SqlInsertMessage_A jsval jsval jsval jsval jsval int
  | SqlSelectFks_B "string list"
  | SqlInsertContact_B jsval string jsval string
  | SqlInsertConversation_B jsval jsval jsval
  | SqlInsertMsgs_B jsval jsval "(jsval \<times> jsval \<times> int \<times> jsval) list"
  | SqlSelectOrCreate_C jsval string jsval jsval string jsval jsval
  | SqlInsertMsgs_C "(jsval \<times> jsval \<times> jsval \<times> jsval) list"

type_synonym 'db pgClient = "stmt \<Rightarrow> 'db \<Rightarrow> (error + QueryResult) \<times> 'db"

text \<open>
  \<^verbatim>\<open>ChatwootRaw\<close> (the provider settings the importers read) and the inbox.
\<close>

record ChatwootRaw =
  p_account_id :: jsval
  p_inbox_id :: jsval
  p_id :: jsval
  p_email :: jsval

record Inbox =
  inbox_id :: jsval

subsection \<open>Label, tag and taggings\<close>

text \<open>
  \<^verbatim>\<open>insertLabel\<close> (the same in the three revisions): check, then insert; every error is
  caught and logged inside. The result is the inserted row, \<open>Null\<close> for an existing label
  (and \<open>Undefined\<close> after an error); no caller reads it. The coercion
  \<^verbatim>\<open>Number(provider.account_id)\<close> of the callers is left to the database.
\<close>

definition insertLabel :: "'db pgClient \<Rightarrow> string \<Rightarrow> jsval \<Rightarrow> 'db \<Rightarrow> jsval \<times> 'db" where
  "insertLabel q name accountId db =
     (case q (SqlCheckLabel name accountId) db of
        (Inl e, db1) \<Rightarrow> (Undefined, db1)
      | (Inr checkResult, db1) \<Rightarrow>
          if rowCount checkResult = 0 then
            (case q (SqlInsertLabel name accountId) db1 of
               (Inl e, db2) \<Rightarrow> (Undefined, db2)
             | (Inr result, db2) \<Rightarrow>
                 (case rows result of [] \<Rightarrow> (Undefined, db2) | r # _ \<Rightarrow> (col r ''id'', db2)))
          else (Null, db1))"

text \<open>
  \<^verbatim>\<open>result.rows[0].id\<close>: a \<^verbatim>\<open>TypeError\<close> when the result has no row.
\<close>

definition firstId :: "QueryResult \<Rightarrow> error + jsval" where
  "firstId result =
     (case rows result of [] \<Rightarrow> Inl (TypeError ''rows[0] is undefined'') | r # _ \<Rightarrow> Inr (col r ''id''))"

text \<open>
  \<^verbatim>\<open>insertTag\<close> of revision A: look the tag up by name; insert it with the count when
  there is none, otherwise add the count to its \<^verbatim>\<open>taggings_count\<close>. The result is the
  tag's id, or \<open>Undefined\<close> when an error was caught.
\<close>

definition insertTag_A :: "'db pgClient \<Rightarrow> string \<Rightarrow> nat \<Rightarrow> 'db \<Rightarrow> jsval \<times> 'db" where
  "insertTag_A q name totalContacts db =
     (case q (SqlCheckTag name) db of
        (Inl e, db1) \<Rightarrow> (Undefined, db1)
      | (Inr checkResult, db1) \<Rightarrow>
          if rowCount checkResult = 0 then
            (case q (SqlInsertTag name totalContacts) db1 of
               (Inl e, db2) \<Rightarrow> (Undefined, db2)
             | (Inr result, db2) \<Rightarrow>
                 (case firstId result of Inl e \<Rightarrow> (Undefined, db2) | Inr i \<Rightarrow> (i, db2)))
          else
            (case q (SqlUpdateTag totalContacts name) db1 of
               (Inl e, db2) \<Rightarrow> (Undefined, db2)
             | (Inr updateResult, db2) \<Rightarrow>
                 (case firstId updateResult of Inl e \<Rightarrow> (Undefined, db2) | Inr i \<Rightarrow> (i, db2))))"

text \<open>\<^verbatim>\<open>insertTag\<close> of revision C: the insert alone.\<close>

definition insertTag_C :: "'db pgClient \<Rightarrow> string \<Rightarrow> nat \<Rightarrow> 'db \<Rightarrow> jsval \<times> 'db" where
  "insertTag_C q name totalContacts db =
     (case q (SqlInsertTag name totalContacts) db of
        (Inl e, db1) \<Rightarrow> (Undefined, db1)
      | (Inr result, db1) \<Rightarrow>
          (case firstId result of Inl e \<Rightarrow> (Undefined, db1) | Inr i \<Rightarrow> (i, db1)))"

text \<open>
  \<^verbatim>\<open>insertTaggings\<close>: one insert per contact inside one \<^verbatim>\<open>try\<close>, so the first error
  ends the loop. Revision A takes the ids the contact insert returned, revision C the
  staged contacts and a creation date.
\<close>

fun insertTaggings_A :: "'db pgClient \<Rightarrow> jsval \<Rightarrow> jsval list \<Rightarrow> 'db \<Rightarrow> 'db" where
  "insertTaggings_A q tagId [] db = db"
| "insertTaggings_A q tagId (contactId # contactIds) db =
     (case q (SqlInsertTaggings_A tagId contactId) db of
        (Inl e, db1) \<Rightarrow> db1
      | (Inr r, db1) \<Rightarrow> insertTaggings_A q tagId contactIds db1)"

fun insertTaggings_C :: "'db pgClient \<Rightarrow> jsval \<Rightarrow> ContactRaw list \<Rightarrow> jsval \<Rightarrow> 'db \<Rightarrow> 'db" where
  "insertTaggings_C q tagId [] createdAt db = db"
| "insertTaggings_C q tagId (contact # contacts) createdAt db =
     (case q (SqlInsertTaggings_C tagId (cr_id contact) createdAt) db of
        (Inl e, db1) \<Rightarrow> db1
      | (Inr r, db1) \<Rightarrow> insertTaggings_C q tagId contacts createdAt db1)"

subsection \<open>The contact importer\<close>

text \<open>
  The bind values of one contact in the multi-row insert: \<^verbatim>\<open>contact.pushName\<close>,
  \<^verbatim>\<open>`+${contact.id.split('@')[0]}`\<close> and \<^verbatim>\<open>contact.id\<close>.
\<close>

definition contactBind :: "ContactRaw \<Rightarrow> jsval \<times> string \<times> string" where
  "contactBind contact = (cr_pushName contact, phoneOf (cr_id contact), cr_id contact)"

text \<open>
  The result of an importer: \<open>Inr (Some n)\<close> is \<^verbatim>\<open>return n\<close>, \<open>Inr None\<close> the bare
  \<^verbatim>\<open>return\<close>, and \<open>Inl e\<close> the error \<open>e\<close> caught and logged by the \<^verbatim>\<open>catch\<close> of the
  importer, after which the caller gets \<^verbatim>\<open>undefined\<close>. An importer that never returns
  has the value \<open>None\<close>.
\<close>

type_synonym 'db imported = "((error + nat option) \<times> ChatwootImport \<times> 'db) option"

definition returned :: "error + nat option \<Rightarrow> nat option" where
  "returned r = (case r of Inl e \<Rightarrow> None | Inr v \<Rightarrow> v)"

text \<open>
  Revision A, the \<^verbatim>\<open>while (contactsChunk.length > 0)\<close> loop: one insert per round, the
  ids of the returned rows collected, and the next chunk taken with
  \<^verbatim>\<open>this.sliceIntoChunks(contacts, 3000)\<close> from the same \<^verbatim>\<open>contacts\<close>.
\<close>

partial_function (option) contactsLoop_A ::
  "'db pgClient \<Rightarrow> jsval \<Rightarrow> ContactRaw list \<Rightarrow> ContactRaw list \<Rightarrow> nat \<Rightarrow> jsval list \<Rightarrow> 'db
   \<Rightarrow> ((error + nat \<times> jsval list) \<times> 'db) option" where
  "contactsLoop_A q account contacts contactsChunk totalImported contactIds db =
     (if length contactsChunk > 0 then
        (case q (SqlInsertContactsReturning account (map contactBind contactsChunk)) db of
           (Inl e, db1) \<Rightarrow> Some (Inl e, db1)
         | (Inr result, db1) \<Rightarrow>
             (case sliceIntoChunks_A contacts 3000 of
                None \<Rightarrow> None
              | Some nextChunk \<Rightarrow>
                  contactsLoop_A q account contacts nextChunk
                    (totalImported + rowCount result)
                    (contactIds @ map (\<lambda>r. col r ''id'') (rows result)) db1))
      else Some (Inr (totalImported, contactIds), db))"

declare contactsLoop_A.simps [code]

definition importHistoryContacts_A ::
  "'db pgClient \<Rightarrow> InstanceDto \<Rightarrow> ChatwootRaw \<Rightarrow> ChatwootImport \<Rightarrow> 'db \<Rightarrow> 'db imported" where
  "importHistoryContacts_A q inst provider st db =
     (if getHistoryMessagesLenght st inst > 0 then Some (Inr None, st, db)
      else
        let contacts = (case historyContacts st (instanceName inst) of
                          Some cs \<Rightarrow> cs | None \<Rightarrow> [])
        in if length contacts = 0 then Some (Inr (Some 0), st, db)
           else
             (case sliceIntoChunks_A contacts 3000 of
                None \<Rightarrow> None
              | Some contactsChunk \<Rightarrow>
                  let db1 = snd (insertLabel q (instanceName inst) (p_account_id provider) db);
                      tagged = insertTag_A q (instanceName inst) (length contacts) db1
                  in (case contactsLoop_A q (p_account_id provider) contacts contactsChunk 0 []
                             (snd tagged) of
                        None \<Rightarrow> None
                      | Some (Inl e, db3) \<Rightarrow> Some (Inl e, st, db3)
                      | Some (Inr (totalImported, contactIds), db3) \<Rightarrow>
                          Some (Inr (Some totalImported), deleteHistoryContacts st inst,
                                insertTaggings_A q (fst tagged) contactIds db3))))"

text \<open>
  Revision B calls \<^verbatim>\<open>insertLabel\<close> once per contact of the chunk while it builds the
  statement.
\<close>

fun insertLabels_B :: "'db pgClient \<Rightarrow> string \<Rightarrow> jsval \<Rightarrow> ContactRaw list \<Rightarrow> 'db \<Rightarrow> 'db" where
  "insertLabels_B q name accountId [] db = db"
| "insertLabels_B q name accountId (contact # contactsChunk) db =
     insertLabels_B q name accountId contactsChunk (snd (insertLabel q name accountId db))"

text \<open>
  Revision B, the loop: \<^verbatim>\<open>sliceIntoChunks\<close> removes the next chunk from the staged array
  itself (\<open>contacts\<close> is what the array holds), so the staging store changes each round.
\<close>

partial_function (option) contactsLoop_B ::
  "'db pgClient \<Rightarrow> string \<Rightarrow> jsval \<Rightarrow> ContactRaw list \<Rightarrow> ContactRaw list \<Rightarrow> nat
   \<Rightarrow> ChatwootImport \<Rightarrow> 'db \<Rightarrow> ((error + nat) \<times> ChatwootImport \<times> 'db) option" where
  "contactsLoop_B q name account contacts contactsChunk totalImported st db =
     (if length contactsChunk > 0 then
        (case q (SqlInsertContacts account (map contactBind contactsChunk))
                (insertLabels_B q name account contactsChunk db) of
           (Inl e, db1) \<Rightarrow> Some (Inl e, st, db1)
         | (Inr result, db1) \<Rightarrow>
             contactsLoop_B q name account
               (snd (sliceIntoChunks_B contacts 3000)) (fst (sliceIntoChunks_B contacts 3000))
               (totalImported + rowCount result)
               (writeContacts st name (snd (sliceIntoChunks_B contacts 3000))) db1)
      else Some (Inr totalImported, st, db))"

declare contactsLoop_B.simps [code]

definition importHistoryContacts_B ::
  "'db pgClient \<Rightarrow> InstanceDto \<Rightarrow> ChatwootRaw \<Rightarrow> ChatwootImport \<Rightarrow> 'db \<Rightarrow> 'db imported" where
  "importHistoryContacts_B q inst provider st db =
     (if getHistoryMessagesLenght st inst > 0 then Some (Inr None, st, db)
      else
        let contacts = (case historyContacts st (instanceName inst) of
                          Some cs \<Rightarrow> cs | None \<Rightarrow> [])
        in if length contacts = 0 then Some (Inr (Some 0), st, db)
           else
             (case contactsLoop_B q (instanceName inst) (p_account_id provider)
                     (snd (sliceIntoChunks_B contacts 3000)) (fst (sliceIntoChunks_B contacts 3000)) 0
                     (writeContacts st (instanceName inst) (snd (sliceIntoChunks_B contacts 3000))) db of
                None \<Rightarrow> None
              | Some (Inl e, st1, db1) \<Rightarrow> Some (Inl e, st1, db1)
              | Some (Inr totalImported, st1, db1) \<Rightarrow>
                  Some (Inr (Some totalImported), deleteHistoryContacts st1 inst, db1)))"

text \<open>
  Revision C, the loop: the next chunk is \<^verbatim>\<open>this.sliceIntoChunks(contacts, 3000)\<close>, a
  slice that leaves \<^verbatim>\<open>contacts\<close> as it is.
\<close>

partial_function (option) contactsLoop_C ::
  "'db pgClient \<Rightarrow> jsval \<Rightarrow> ContactRaw list \<Rightarrow> ContactRaw list \<Rightarrow> nat \<Rightarrow> 'db
   \<Rightarrow> ((error + nat) \<times> 'db) option" where
  "contactsLoop_C q account contacts contactsChunk totalImported db =
     (if length contactsChunk > 0 then
        (case q (SqlInsertContacts account (map contactBind contactsChunk)) db of
           (Inl e, db1) \<Rightarrow> Some (Inl e, db1)
         | (Inr result, db1) \<Rightarrow>
             contactsLoop_C q account contacts (sliceIntoChunks_C contacts 3000)
               (totalImported + rowCount result) db1)
      else Some (Inr totalImported, db))"

declare contactsLoop_C.simps [code]

text \<open>
  \<open>createdAt\<close> is the value of \<^verbatim>\<open>new Date()\<close>, read from the clock of the process after
  the tag is inserted.
\<close>

definition importHistoryContacts_C ::
  "'db pgClient \<Rightarrow> jsval \<Rightarrow> InstanceDto \<Rightarrow> ChatwootRaw \<Rightarrow> ChatwootImport \<Rightarrow> 'db \<Rightarrow> 'db imported" where
  "importHistoryContacts_C q createdAt inst provider st db =
     (if getHistoryMessagesLenght st inst > 0 then Some (Inr None, st, db)
      else
        let contacts = (case historyContacts st (instanceName inst) of
                          Some cs \<Rightarrow> cs | None \<Rightarrow> [])
        in if length contacts = 0 then Some (Inr (Some 0), st, db)
           else
             let contactsChunk = sliceIntoChunks_C contacts 3000;
                 db1 = snd (insertLabel q (instanceName inst) (p_account_id provider) db);
                 tagged = insertTag_C q (instanceName inst) (length contacts) db1
             in (case contactsLoop_C q (p_account_id provider) contacts contactsChunk 0 (snd tagged) of
                   None \<Rightarrow> None
                 | Some (Inl e, db3) \<Rightarrow> Some (Inl e, st, db3)
                 | Some (Inr totalImported, db3) \<Rightarrow>
                     Some (Inr (Some totalImported), deleteHistoryContacts st inst,
                           insertTaggings_C q (fst tagged) contacts createdAt db3)))"

subsection \<open>Sorting the staged messages\<close>

text \<open>
  \<^verbatim>\<open>parseInt(s)\<close> without a radix: leading white space is skipped, then an optional sign,
  then \<^verbatim>\<open>0x\<close> or \<^verbatim>\<open>0X\<close> selects radix 16 (radix 10 otherwise), then the longest run of
  digits of the radix is read; no digit gives \<^verbatim>\<open>NaN\<close> (\<open>None\<close>). The integer read is
  converted to a JavaScript number, a double: beyond \<open>2^53\<close> it is rounded to 53 significant
  bits, to nearest and ties to even, and from \<open>2^1024\<close> on the number is \<^verbatim>\<open>Infinity\<close>.

  A string is a list of 8-bit characters here, so of the white space of the language the
  characters up to U+00FF are there: tab, line feed, vertical tab, form feed, carriage
  return, space and the no-break space U+00A0.
\<close>

definition isWhiteSpace :: "char \<Rightarrow> bool" where
  "isWhiteSpace c =
     (c = CHR '' '' \<or> c = CHR 0x09 \<or> c = CHR 0x0A \<or> c = CHR 0x0B \<or> c = CHR 0x0C
      \<or> c = CHR 0x0D \<or> c = CHR 0xA0)"

definition digitOf :: "char \<Rightarrow> nat option" where
  "digitOf c =
     (let n = (of_char c :: nat)
      in if 48 \<le> n \<and> n \<le> 57 then Some (n - 48)
         else if 97 \<le> n \<and> n \<le> 122 then Some (n - 87)
         else if 65 \<le> n \<and> n \<le> 90 then Some (n - 55)
         else None)"

definition digitIn :: "nat \<Rightarrow> char \<Rightarrow> nat option" where
  "digitIn radix c =
     (case digitOf c of None \<Rightarrow> None | Some d \<Rightarrow> if d < radix then Some d else None)"

fun digitsPrefix :: "nat \<Rightarrow> string \<Rightarrow> nat list" where
  "digitsPrefix radix [] = []"
| "digitsPrefix radix (c # cs) =
     (case digitIn radix c of None \<Rightarrow> [] | Some d \<Rightarrow> d # digitsPrefix radix cs)"

definition digitsValue :: "nat \<Rightarrow> nat list \<Rightarrow> int" where
  "digitsValue radix ds = foldl (\<lambda>acc d. acc * int radix + int d) 0 ds"

definition stripSign :: "string \<Rightarrow> int \<times> string" where
  "stripSign s =
     (case s of
        [] \<Rightarrow> (1, s)
      | c # cs \<Rightarrow> if c = CHR ''-'' then (- 1, cs) else if c = CHR ''+'' then (1, cs) else (1, s))"

definition stripPrefix :: "string \<Rightarrow> nat \<times> string" where
  "stripPrefix s =
     (case s of
        a # b # cs \<Rightarrow>
          if a = CHR ''0'' \<and> (b = CHR ''x'' \<or> b = CHR ''X'') then (16, cs) else (10, s)
      | _ \<Rightarrow> (10, s))"

text \<open>
  The conversion of a natural number to a double (\<open>9007199254740992\<close> is \<open>2^53\<close>);
  \<open>bitLength n\<close> is the number of bits of \<open>n\<close>. \<^verbatim>\<open>Infinity\<close> is represented by \<open>2^1024\<close>, the value the rounding would give with one more
  exponent: it is greater than every double, and the difference of two of them is 0 where
  \<^verbatim>\<open>Infinity - Infinity\<close> is \<^verbatim>\<open>NaN\<close>, which is falsy as 0 is.
\<close>

function bitLength :: "int \<Rightarrow> nat" where
  "bitLength n = (if n \<le> 0 then 0 else Suc (bitLength (n div 2)))"
  by pat_completeness auto
termination
  by (relation "measure nat") auto

declare bitLength.simps [simp del]

definition toDouble :: "int \<Rightarrow> int" where
  "toDouble n =
     (if n < 9007199254740992 then n
      else
        let e = bitLength n - 53;
            q = n div 2 ^ e;
            r = n mod 2 ^ e;
            half = 2 ^ (e - 1);
            rounded = (if half < r \<or> (r = half \<and> odd q) then q + 1 else q) * 2 ^ e
        in min rounded (2 ^ 1024))"

definition parseInt :: "string \<Rightarrow> int option" where
  "parseInt s =
     (let signed = stripSign (dropWhile isWhiteSpace s);
          based = stripPrefix (snd signed);
          ds = digitsPrefix (fst based) (snd based)
      in if ds = [] then None
         else Some (fst signed * toDouble (digitsValue (fst based) ds)))"

text \<open>
  The comparator of revisions B and C:
  \<^verbatim>\<open>parseInt(a.key.remoteJid) - parseInt(b.key.remoteJid) || a.messageTimestamp - b.messageTimestamp\<close>.
  A difference that is \<^verbatim>\<open>NaN\<close> or 0 is falsy, so the timestamps decide then.
  Revision A compares the timestamps only. The sort reads from the result of a comparator
  whether it is negative, and the difference of two doubles is negative when the
  difference of their values is, so the comparators return the latter.
\<close>

definition compareMessages :: "MessageRaw \<Rightarrow> MessageRaw \<Rightarrow> int" where
  "compareMessages a b =
     (case parseInt (mr_remoteJid a) of
        None \<Rightarrow> mr_messageTimestamp a - mr_messageTimestamp b
      | Some x \<Rightarrow>
          (case parseInt (mr_remoteJid b) of
             None \<Rightarrow> mr_messageTimestamp a - mr_messageTimestamp b
           | Some y \<Rightarrow>
               if x - y \<noteq> 0 then x - y else mr_messageTimestamp a - mr_messageTimestamp b))"

definition compareMessages_A :: "MessageRaw \<Rightarrow> MessageRaw \<Rightarrow> int" where
  "compareMessages_A a b = mr_messageTimestamp a - mr_messageTimestamp b"

text \<open>
  \<^verbatim>\<open>Array.prototype.sort(compare)\<close> as V8, the engine of Node.js, runs it
  (\<^verbatim>\<open>third_party/v8/builtins/array-sort.tq\<close>). \<^verbatim>\<open>CountAndMakeRun\<close> takes the longest run at
  the start of the array that is either non-descending or strictly descending, as the
  comparator sees each element and the one before it, and reverses a descending run.
  \<^verbatim>\<open>BinaryInsertionSort\<close> then inserts each remaining element into the sorted part, at the
  position a binary search finds: \<open>left\<close> and \<open>right\<close> close in on it, the pivot going to
  the left of the middle element when the comparator says it is less.

  An array of fewer than 64 elements is sorted in exactly this way, whatever the
  comparator. A longer array is cut into runs that are sorted in this way and merged;
  when the comparator orders the elements consistently the result is the same array, the
  stable sort of the elements, and when it does not, the language leaves the order to the
  implementation and the merges are not modelled.
\<close>

fun countRun :: "('a \<Rightarrow> 'a \<Rightarrow> int) \<Rightarrow> bool \<Rightarrow> 'a \<Rightarrow> 'a list \<Rightarrow> nat" where
  "countRun cmp isDescending previousElement [] = 0"
| "countRun cmp isDescending previousElement (currentElement # elements) =
     (if (if isDescending then cmp currentElement previousElement < 0
          else \<not> cmp currentElement previousElement < 0)
      then Suc (countRun cmp isDescending currentElement elements)
      else 0)"

definition countAndMakeRun :: "('a \<Rightarrow> 'a \<Rightarrow> int) \<Rightarrow> 'a list \<Rightarrow> 'a list \<times> 'a list" where
  "countAndMakeRun cmp workArray =
     (case workArray of
        elementHigh # elementLow # elements \<Rightarrow>
          let isDescending = cmp elementLow elementHigh < 0;
              runLength = 2 + countRun cmp isDescending elementLow elements
          in (if isDescending then rev (take runLength workArray) else take runLength workArray,
              drop runLength workArray)
      | _ \<Rightarrow> (workArray, []))"

function binarySearch :: "('a \<Rightarrow> 'a \<Rightarrow> int) \<Rightarrow> 'a \<Rightarrow> 'a list \<Rightarrow> nat \<Rightarrow> nat \<Rightarrow> nat" where
  "binarySearch cmp pivot workArray left right =
     (if left < right then
        (if cmp pivot (workArray ! (left + (right - left) div 2)) < 0
         then binarySearch cmp pivot workArray left (left + (right - left) div 2)
         else binarySearch cmp pivot workArray (left + (right - left) div 2 + 1) right)
      else left)"
  by pat_completeness auto
termination
  by (relation "measure (\<lambda>(cmp, pivot, workArray, left, right). right - left)") auto

declare binarySearch.simps [simp del]

definition binaryInsert :: "('a \<Rightarrow> 'a \<Rightarrow> int) \<Rightarrow> 'a list \<Rightarrow> 'a \<Rightarrow> 'a list" where
  "binaryInsert cmp sortedPart pivot =
     (let left = binarySearch cmp pivot sortedPart 0 (length sortedPart)
      in take left sortedPart @ pivot # drop left sortedPart)"

definition js_sort :: "('a \<Rightarrow> 'a \<Rightarrow> int) \<Rightarrow> 'a list \<Rightarrow> 'a list" where
  "js_sort cmp xs =
     (case countAndMakeRun cmp xs of (run, elements) \<Rightarrow> foldl (binaryInsert cmp) run elements)"

subsection \<open>Grouping messages by phone number\<close>

text \<open>
  A JavaScript \<^verbatim>\<open>Map\<close> keeps its keys in the order of their first insertion:
  \<^verbatim>\<open>map.set\<close> on an existing key replaces the value where it stands.
\<close>

fun map_set :: "'k \<Rightarrow> 'v \<Rightarrow> ('k \<times> 'v) list \<Rightarrow> ('k \<times> 'v) list" where
  "map_set k v [] = [(k, v)]"
| "map_set k v (e # m) = (if fst e = k then (k, v) # m else e # map_set k v m)"

definition pushMessage ::
  "(MessageRaw \<Rightarrow> string) \<Rightarrow> (string \<times> MessageRaw list) list \<Rightarrow> MessageRaw
   \<Rightarrow> (string \<times> MessageRaw list) list" where
  "pushMessage keyOf m message =
     map_set (keyOf message)
       ((case map_of m (keyOf message) of Some previous \<Rightarrow> previous | None \<Rightarrow> []) @ [message]) m"

text \<open>
  Revision B keys the map by \<^verbatim>\<open>`+${message.key.remoteJid.split('@')[0]}`\<close>, revision C
  by \<^verbatim>\<open>message.key.remoteJid\<close>.
\<close>

definition createMessagesMapByPhoneNumber_B ::
  "MessageRaw list \<Rightarrow> (string \<times> MessageRaw list) list" where
  "createMessagesMapByPhoneNumber_B messages =
     foldl (pushMessage (\<lambda>message. phoneOf (mr_remoteJid message))) [] messages"

definition createMessagesMapByPhoneNumber_C ::
  "MessageRaw list \<Rightarrow> (string \<times> MessageRaw list) list" where
  "createMessagesMapByPhoneNumber_C messages = foldl (pushMessage mr_remoteJid) [] messages"

text \<open>
  \<^verbatim>\<open>phoneNumbersWithTimestamp\<close>: for each key, \<^verbatim>\<open>messages[0]?.messageTimestamp\<close> and
  \<^verbatim>\<open>messages[messages.length - 1]?.messageTimestamp\<close>.
\<close>

definition firstLast :: "MessageRaw list \<Rightarrow> jsval \<times> jsval" where
  "firstLast messages =
     (case messages of
        [] \<Rightarrow> (Undefined, Undefined)
      | m # ms \<Rightarrow> (Num (mr_messageTimestamp m), Num (mr_messageTimestamp (last (m # ms)))))"

definition phoneNumbersWithTimestamp ::
  "(string \<times> MessageRaw list) list \<Rightarrow> (string \<times> jsval \<times> jsval) list" where
  "phoneNumbersWithTimestamp grouped = map (\<lambda>e. (fst e, firstLast (snd e))) grouped"

subsection \<open>The acting user\<close>

text \<open>
  \<^verbatim>\<open>getChatwootUser\<close>: the first row of the lookup, if any. Revisions A and C catch the
  error of the query and give no user then; revision B lets it through.
\<close>

definition firstRow :: "QueryResult \<Rightarrow> (string \<times> jsval) list option" where
  "firstRow result = (case rows result of [] \<Rightarrow> None | r # _ \<Rightarrow> Some r)"

definition getChatwootUser_A ::
  "'db pgClient \<Rightarrow> ChatwootRaw \<Rightarrow> 'db \<Rightarrow> (string \<times> jsval) list option \<times> 'db" where
  "getChatwootUser_A q provider db =
     (case q (SqlUser_A (p_account_id provider)) db of
        (Inl e, db1) \<Rightarrow> (None, db1)
      | (Inr result, db1) \<Rightarrow> (firstRow result, db1))"

definition getChatwootUser_B ::
  "'db pgClient \<Rightarrow> ChatwootRaw \<Rightarrow> 'db \<Rightarrow> (error + (string \<times> jsval) list option) \<times> 'db" where
  "getChatwootUser_B q provider db =
     (case q (SqlUser_B (p_email provider)) db of
        (Inl e, db1) \<Rightarrow> (Inl e, db1)
      | (Inr result, db1) \<Rightarrow> (Inr (firstRow result), db1))"

definition getChatwootUser_C ::
  "'db pgClient \<Rightarrow> ChatwootRaw \<Rightarrow> 'db \<Rightarrow> (string \<times> jsval) list option \<times> 'db" where
  "getChatwootUser_C q provider db =
     (case q (SqlUser_C (p_email provider)) db of
        (Inl e, db1) \<Rightarrow> (None, db1)
      | (Inr result, db1) \<Rightarrow> (firstRow result, db1))"

definition userNotFound :: error where
  "userNotFound = Error ''User not found to import messages.''"

subsection \<open>The key resolver\<close>

record FksChatwoot =
  fk_phone_number :: jsval
  fk_contact_id :: jsval
  fk_conversation_id :: jsval

text \<open>\<^verbatim>\<open>result?.rows?.[0]?.<column>\<close>: \<open>Undefined\<close> when the result has no row.\<close>

definition firstCol :: "QueryResult \<Rightarrow> string \<Rightarrow> jsval" where
  "firstCol result c = (case rows result of [] \<Rightarrow> Undefined | r # _ \<Rightarrow> col r c)"

text \<open>
  Revision B. \<^verbatim>\<open>insertContactChatwoot\<close> and \<^verbatim>\<open>insertConversationChatwoot\<close> are one
  insert each and return the new id; their errors are not caught.
\<close>

definition insertContactChatwoot ::
  "'db pgClient \<Rightarrow> ChatwootRaw \<Rightarrow> string \<Rightarrow> string \<Rightarrow> 'db \<Rightarrow> (error + jsval) \<times> 'db" where
  "insertContactChatwoot q provider phone_number identifier db =
     (case q (SqlInsertContact_B Null phone_number (p_account_id provider) identifier) db of
        (Inl e, db1) \<Rightarrow> (Inl e, db1)
      | (Inr result, db1) \<Rightarrow> (Inr (firstCol result ''id''), db1))"

definition insertConversationChatwoot ::
  "'db pgClient \<Rightarrow> ChatwootRaw \<Rightarrow> Inbox \<Rightarrow> jsval \<Rightarrow> 'db \<Rightarrow> (error + jsval) \<times> 'db" where
  "insertConversationChatwoot q provider inbox contact_id db =
     (case q (SqlInsertConversation_B (p_account_id provider) (inbox_id inbox) contact_id) db of
        (Inl e, db1) \<Rightarrow> (Inl e, db1)
      | (Inr result, db1) \<Rightarrow> (Inr (firstCol result ''id''), db1))"

text \<open>
  The part of the loop body of \<^verbatim>\<open>selectOrCreateFksFromChatwoot\<close> (revision B) that runs
  when the select gave no row with a conversation for the phone number. \<open>Inr None\<close> is
  a \<^verbatim>\<open>continue\<close> that sets nothing.
\<close>

definition createFks_B ::
  "'db pgClient \<Rightarrow> ChatwootRaw \<Rightarrow> Inbox \<Rightarrow> (string \<times> jsval \<times> jsval) list
   \<Rightarrow> (string \<times> MessageRaw list) list \<Rightarrow> string \<Rightarrow> 'db \<Rightarrow> (error + FksChatwoot option) \<times> 'db" where
  "createFks_B q provider inbox withTimestamp messagesByPhoneNumber phoneNumber db =
     (let messages = (case map_of messagesByPhoneNumber phoneNumber of
                        Some ms \<Rightarrow> ms | None \<Rightarrow> [])
      in if length messages = 0 then (Inr None, db)
         else
           let firstMessageTimestamp =
                 (case map_of withTimestamp phoneNumber of
                    Some fl \<Rightarrow> fst fl | None \<Rightarrow> Undefined)
           in (case find (\<lambda>message. Num (mr_messageTimestamp message) = firstMessageTimestamp)
                         messages of
                 None \<Rightarrow> (Inr None, db)
               | Some firstMessage \<Rightarrow>
                   if mr_remoteJid firstMessage = [] then (Inr None, db)
                   else
                     (case insertContactChatwoot q provider phoneNumber
                             (mr_remoteJid firstMessage) db of
                        (Inl e, db1) \<Rightarrow> (Inl e, db1)
                      | (Inr contact_id, db1) \<Rightarrow>
                          (case insertConversationChatwoot q provider inbox contact_id db1 of
                             (Inl e, db2) \<Rightarrow> (Inl e, db2)
                           | (Inr conversation_id, db2) \<Rightarrow>
                               (Inr (Some \<lparr>fk_phone_number = Str phoneNumber,
                                            fk_contact_id = contact_id,
                                            fk_conversation_id = conversation_id\<rparr>), db2)))))"

definition fksOfRow :: "(string \<times> jsval) list \<Rightarrow> FksChatwoot" where
  "fksOfRow contact =
     \<lparr>fk_phone_number = col contact ''phone_number'',
      fk_contact_id = col contact ''contact_id'',
      fk_conversation_id = col contact ''conversation_id''\<rparr>"

text \<open>
  \<open>Some contact\<close> when \<^verbatim>\<open>rows.find(...)\<close> gives a row whose \<^verbatim>\<open>conversation_id\<close> is truthy.
\<close>

definition foundWithConversation ::
  "(string \<times> jsval) list list \<Rightarrow> string \<Rightarrow> (string \<times> jsval) list option" where
  "foundWithConversation rws phoneNumber =
     (case find (\<lambda>row. col row ''phone_number'' = Str phoneNumber) rws of
        None \<Rightarrow> None
      | Some contact \<Rightarrow> if truthy (col contact ''conversation_id'') then Some contact else None)"

fun fksLoop_B ::
  "'db pgClient \<Rightarrow> ChatwootRaw \<Rightarrow> Inbox \<Rightarrow> (string \<times> jsval \<times> jsval) list
   \<Rightarrow> (string \<times> MessageRaw list) list \<Rightarrow> (string \<times> jsval) list list \<Rightarrow> string list
   \<Rightarrow> (string \<times> FksChatwoot) list \<Rightarrow> 'db \<Rightarrow> (error + (string \<times> FksChatwoot) list) \<times> 'db" where
  "fksLoop_B q provider inbox withTimestamp messagesByPhoneNumber rws [] fksByNumber db =
     (Inr fksByNumber, db)"
| "fksLoop_B q provider inbox withTimestamp messagesByPhoneNumber rws (phoneNumber # phoneNumbers)
     fksByNumber db =
     (case foundWithConversation rws phoneNumber of
        Some contact \<Rightarrow>
          fksLoop_B q provider inbox withTimestamp messagesByPhoneNumber rws phoneNumbers
            (map_set phoneNumber (fksOfRow contact) fksByNumber) db
      | None \<Rightarrow>
          (case createFks_B q provider inbox withTimestamp messagesByPhoneNumber phoneNumber db of
             (Inl e, db1) \<Rightarrow> (Inl e, db1)
           | (Inr None, db1) \<Rightarrow>
               fksLoop_B q provider inbox withTimestamp messagesByPhoneNumber rws phoneNumbers
                 fksByNumber db1
           | (Inr (Some fks), db1) \<Rightarrow>
               fksLoop_B q provider inbox withTimestamp messagesByPhoneNumber rws phoneNumbers
                 (map_set phoneNumber fks fksByNumber) db1))"

definition selectOrCreateFksFromChatwoot_B ::
  "'db pgClient \<Rightarrow> ChatwootRaw \<Rightarrow> Inbox \<Rightarrow> (string \<times> jsval \<times> jsval) list
   \<Rightarrow> (string \<times> MessageRaw list) list \<Rightarrow> 'db \<Rightarrow> (error + (string \<times> FksChatwoot) list) \<times> 'db" where
  "selectOrCreateFksFromChatwoot_B q provider inbox withTimestamp messagesByPhoneNumber db =
     (case q (SqlSelectFks_B (map fst messagesByPhoneNumber)) db of
        (Inl e, db1) \<Rightarrow> (Inl e, db1)
      | (Inr result, db1) \<Rightarrow>
          fksLoop_B q provider inbox withTimestamp messagesByPhoneNumber (rows result)
            (map fst messagesByPhoneNumber) [] db1)"

text \<open>
  Revision C: one statement per key of the chunk, inside one \<^verbatim>\<open>try\<close>; an error (of the
  query, or the \<^verbatim>\<open>TypeError\<close> of \<^verbatim>\<open>messages[0].pushName\<close> and of
  \<^verbatim>\<open>firstLastTimestamp.first\<close> on a missing value) ends the loop and the map built so far
  is returned.
\<close>

fun fksLoop_C ::
  "'db pgClient \<Rightarrow> ChatwootRaw \<Rightarrow> (string \<times> jsval \<times> jsval) list
   \<Rightarrow> (string \<times> MessageRaw list) list \<Rightarrow> (string \<times> FksChatwoot) list \<Rightarrow> 'db
   \<Rightarrow> (string \<times> FksChatwoot) list \<times> 'db" where
  "fksLoop_C q provider withTimestamp [] fksByNumber db = (fksByNumber, db)"
| "fksLoop_C q provider withTimestamp (e # es) fksByNumber db =
     (case snd e of
        [] \<Rightarrow> (fksByNumber, db)
      | m0 # ms \<Rightarrow>
          (case map_of withTimestamp (fst e) of
             None \<Rightarrow> (fksByNumber, db)
           | Some firstLastTimestamp \<Rightarrow>
               (case q (SqlSelectOrCreate_C (p_account_id provider) (phoneOf (fst e))
                          (js_or (mr_pushName m0) (Str []))
                          (fst firstLastTimestamp) (fst e) (p_id provider)
                          (fst firstLastTimestamp)) db of
                  (Inl err, db1) \<Rightarrow> (fksByNumber, db1)
                | (Inr result, db1) \<Rightarrow>
                    fksLoop_C q provider withTimestamp es
                      (map_set (fst e)
                         \<lparr>fk_phone_number = Str (fst e),
                          fk_contact_id = firstCol result ''contact_id'',
                          fk_conversation_id = firstCol result ''conversation_id''\<rparr>
                         fksByNumber) db1)))"

definition selectOrCreateFksFromChatwoot_C ::
  "'db pgClient \<Rightarrow> ChatwootRaw \<Rightarrow> (string \<times> jsval \<times> jsval) list
   \<Rightarrow> (string \<times> MessageRaw list) list \<Rightarrow> 'db \<Rightarrow> (string \<times> FksChatwoot) list \<times> 'db" where
  "selectOrCreateFksFromChatwoot_C q provider withTimestamp messagesByPhoneNumber db =
     fksLoop_C q provider withTimestamp messagesByPhoneNumber [] db"

subsection \<open>The message importer, revision B\<close>

text \<open>
  \<^verbatim>\<open>getContentMessage\<close>: the \<^verbatim>\<open>conversation\<close> text when it is truthy, otherwise what
  \<^verbatim>\<open>chatwootService.getMessageContent\<close> gives (a function of the service, which is
  not in the sources: the parameter \<open>getMessageContent\<close>).
\<close>

definition getContentMessage :: "(MessageContent option \<Rightarrow> jsval) \<Rightarrow> MessageRaw \<Rightarrow> jsval" where
  "getContentMessage getMessageContent message =
     (case mr_message message of
        None \<Rightarrow> getMessageContent None
      | Some content \<Rightarrow>
          if truthy (mc_conversation content) then mc_conversation content
          else getMessageContent (Some content))"

text \<open>
  The rows one message adds to the insert: none when it has no \<^verbatim>\<open>message\<close>, when the
  phone number has no resolved pair with a truthy conversation and contact id, or when
  its content is falsy; otherwise the row (content, conversation id, timestamp, contact id).
\<close>

definition msgRow_B ::
  "(MessageContent option \<Rightarrow> jsval) \<Rightarrow> FksChatwoot option \<Rightarrow> MessageRaw
   \<Rightarrow> (jsval \<times> jsval \<times> int \<times> jsval) list" where
  "msgRow_B getMessageContent fksChatwoot message =
     (case mr_message message of
        None \<Rightarrow> []
      | Some content \<Rightarrow>
          (case fksChatwoot of
             None \<Rightarrow> []
           | Some fks \<Rightarrow>
               if truthy (fk_conversation_id fks) \<and> truthy (fk_contact_id fks) then
                 (if truthy (getContentMessage getMessageContent message)
                  then [(getContentMessage getMessageContent message, fk_conversation_id fks,
                         mr_messageTimestamp message, fk_contact_id fks)]
                  else [])
               else []))"

definition msgRows_B ::
  "(MessageContent option \<Rightarrow> jsval) \<Rightarrow> (string \<times> FksChatwoot) list
   \<Rightarrow> (string \<times> MessageRaw list) list \<Rightarrow> (jsval \<times> jsval \<times> int \<times> jsval) list" where
  "msgRows_B getMessageContent fksByNumber messagesByPhoneNumber =
     concat (map (\<lambda>e. concat (map (msgRow_B getMessageContent (map_of fksByNumber (fst e))) (snd e)))
                 messagesByPhoneNumber)"

text \<open>
  The loop \<^verbatim>\<open>while (messagesChunk.length > 0)\<close>. \<open>messagesOrdered\<close> is what the staged
  array holds; the next chunk is spliced off it inside the \<^verbatim>\<open>if\<close> on the size of the
  map, so a round with an empty map would run again on the same chunk.
\<close>

partial_function (option) messagesLoop_B ::
  "'db pgClient \<Rightarrow> (MessageContent option \<Rightarrow> jsval) \<Rightarrow> Inbox \<Rightarrow> ChatwootRaw \<Rightarrow> string
   \<Rightarrow> (string \<times> jsval \<times> jsval) list \<Rightarrow> MessageRaw list \<Rightarrow> MessageRaw list \<Rightarrow> nat
   \<Rightarrow> ChatwootImport \<Rightarrow> 'db \<Rightarrow> ((error + nat) \<times> ChatwootImport \<times> 'db) option" where
  "messagesLoop_B q getMessageContent inbox provider name withTimestamp messagesOrdered
     messagesChunk totalImported st db =
     (if length messagesChunk > 0 then
        (if length (createMessagesMapByPhoneNumber_B messagesChunk) > 0 then
           (case selectOrCreateFksFromChatwoot_B q provider inbox withTimestamp
                   (createMessagesMapByPhoneNumber_B messagesChunk) db of
              (Inl e, db1) \<Rightarrow> Some (Inl e, st, db1)
            | (Inr fksByNumber, db1) \<Rightarrow>
                (case q (SqlInsertMsgs_B (p_account_id provider) (inbox_id inbox)
                           (msgRows_B getMessageContent fksByNumber
                              (createMessagesMapByPhoneNumber_B messagesChunk))) db1 of
                   (Inl e, db2) \<Rightarrow> Some (Inl e, st, db2)
                 | (Inr result, db2) \<Rightarrow>
                     messagesLoop_B q getMessageContent inbox provider name withTimestamp
                       (snd (sliceIntoChunks_B messagesOrdered 4000))
                       (fst (sliceIntoChunks_B messagesOrdered 4000))
                       (totalImported + rowCount result)
                       (writeMessages st name (snd (sliceIntoChunks_B messagesOrdered 4000))) db2))
         else
           messagesLoop_B q getMessageContent inbox provider name withTimestamp messagesOrdered
             messagesChunk totalImported st db)
      else Some (Inr totalImported, st, db))"

declare messagesLoop_B.simps [code]

text \<open>
  \<^verbatim>\<open>messagesOrdered\<close> is the staged array itself: the sort and each splice change the
  staging store before any row is inserted.
\<close>

definition importHistoryMessages_B ::
  "'db pgClient \<Rightarrow> (MessageContent option \<Rightarrow> jsval) \<Rightarrow> InstanceDto \<Rightarrow> Inbox \<Rightarrow> ChatwootRaw
   \<Rightarrow> ChatwootImport \<Rightarrow> 'db \<Rightarrow> 'db imported" where
  "importHistoryMessages_B q getMessageContent inst inbox provider st db =
     (case getChatwootUser_B q provider db of
        (Inl e, db1) \<Rightarrow> Some (Inl e, st, db1)
      | (Inr None, db1) \<Rightarrow> Some (Inl userNotFound, st, db1)
      | (Inr (Some chatwootUser), db1) \<Rightarrow>
          (case historyMessages st (instanceName inst) of
             None \<Rightarrow> Some (Inr (Some 0), st, db1)
           | Some staged \<Rightarrow>
               if length staged = 0 then Some (Inr (Some 0), st, db1)
               else
                 let messagesOrdered = js_sort compareMessages staged;
                     withTimestamp =
                       phoneNumbersWithTimestamp (createMessagesMapByPhoneNumber_B messagesOrdered)
                 in (case messagesLoop_B q getMessageContent inbox provider (instanceName inst)
                            withTimestamp
                            (snd (sliceIntoChunks_B messagesOrdered 4000))
                            (fst (sliceIntoChunks_B messagesOrdered 4000)) 0
                            (writeMessages (writeMessages st (instanceName inst) messagesOrdered)
                               (instanceName inst)
                               (snd (sliceIntoChunks_B messagesOrdered 4000))) db1 of
                       None \<Rightarrow> None
                     | Some (Inl e, st1, db2) \<Rightarrow> Some (Inl e, st1, db2)
                     | Some (Inr totalImported, st1, db2) \<Rightarrow>
                         Some (Inr (Some totalImported), deleteHistoryMessages st1 inst, db2))))"

subsection \<open>The message importer, revision C\<close>

text \<open>
  The rows of the insert: one per message, \<^verbatim>\<open>fks.conversation_id\<close> read from the resolved
  pair of its key; a key without a pair makes \<^verbatim>\<open>fks\<close> undefined and the read a
  \<^verbatim>\<open>TypeError\<close>.
\<close>

fun msgRowsOf_C ::
  "ChatwootRaw \<Rightarrow> FksChatwoot option \<Rightarrow> MessageRaw list
   \<Rightarrow> error + (jsval \<times> jsval \<times> jsval \<times> jsval) list" where
  "msgRowsOf_C provider fks [] = Inr []"
| "msgRowsOf_C provider fks (message # messages) =
     (case fks of
        None \<Rightarrow> Inl (TypeError ''fks is undefined'')
      | Some f \<Rightarrow>
          (case msgRowsOf_C provider fks messages of
             Inl e \<Rightarrow> Inl e
           | Inr rs \<Rightarrow>
               Inr ((p_account_id provider, p_id provider, fk_conversation_id f,
                     js_or (mr_messageText message) (Str [])) # rs)))"

fun msgRows_C ::
  "ChatwootRaw \<Rightarrow> (string \<times> FksChatwoot) list \<Rightarrow> (string \<times> MessageRaw list) list
   \<Rightarrow> error + (jsval \<times> jsval \<times> jsval \<times> jsval) list" where
  "msgRows_C provider fksByNumber [] = Inr []"
| "msgRows_C provider fksByNumber (e # es) =
     (case msgRowsOf_C provider (map_of fksByNumber (fst e)) (snd e) of
        Inl err \<Rightarrow> Inl err
      | Inr rs \<Rightarrow>
          (case msgRows_C provider fksByNumber es of
             Inl err \<Rightarrow> Inl err
           | Inr rs' \<Rightarrow> Inr (rs @ rs')))"

text \<open>
  The loop: the next chunk is \<^verbatim>\<open>this.sliceIntoChunks(messagesOrdered, batchSize)\<close>, a
  slice that leaves \<^verbatim>\<open>messagesOrdered\<close> as it is.
\<close>

partial_function (option) messagesLoop_C ::
  "'db pgClient \<Rightarrow> ChatwootRaw \<Rightarrow> (string \<times> jsval \<times> jsval) list \<Rightarrow> MessageRaw list
   \<Rightarrow> MessageRaw list \<Rightarrow> nat \<Rightarrow> 'db \<Rightarrow> ((error + nat) \<times> 'db) option" where
  "messagesLoop_C q provider withTimestamp messagesOrdered messagesChunk totalImported db =
     (if length messagesChunk > 0 then
        (if length (createMessagesMapByPhoneNumber_C messagesChunk) > 0 then
           (case msgRows_C provider
                   (fst (selectOrCreateFksFromChatwoot_C q provider withTimestamp
                           (createMessagesMapByPhoneNumber_C messagesChunk) db))
                   (createMessagesMapByPhoneNumber_C messagesChunk) of
              Inl e \<Rightarrow>
                Some (Inl e, snd (selectOrCreateFksFromChatwoot_C q provider withTimestamp
                                    (createMessagesMapByPhoneNumber_C messagesChunk) db))
            | Inr rs \<Rightarrow>
                (case q (SqlInsertMsgs_C rs)
                        (snd (selectOrCreateFksFromChatwoot_C q provider withTimestamp
                                (createMessagesMapByPhoneNumber_C messagesChunk) db)) of
                   (Inl e, db2) \<Rightarrow> Some (Inl e, db2)
                 | (Inr result, db2) \<Rightarrow>
                     messagesLoop_C q provider withTimestamp messagesOrdered
                       (sliceIntoChunks_C messagesOrdered 4000)
                       (totalImported + rowCount result) db2))
         else
           messagesLoop_C q provider withTimestamp messagesOrdered
             (sliceIntoChunks_C messagesOrdered 4000) totalImported db)
      else Some (Inr totalImported, db))"

declare messagesLoop_C.simps [code]

definition importHistoryMessages_C ::
  "'db pgClient \<Rightarrow> InstanceDto \<Rightarrow> ChatwootRaw \<Rightarrow> ChatwootImport \<Rightarrow> 'db \<Rightarrow> 'db imported" where
  "importHistoryMessages_C q inst provider st db =
     (case getChatwootUser_C q provider db of
        (None, db1) \<Rightarrow> Some (Inl userNotFound, st, db1)
      | (Some chatwootUser, db1) \<Rightarrow>
          (case historyMessages st (instanceName inst) of
             None \<Rightarrow> Some (Inr (Some 0), st, db1)
           | Some staged \<Rightarrow>
               if length staged = 0 then Some (Inr (Some 0), st, db1)
               else
                 let messagesOrdered = js_sort compareMessages staged;
                     st1 = writeMessages st (instanceName inst) messagesOrdered;
                     withTimestamp =
                       phoneNumbersWithTimestamp (createMessagesMapByPhoneNumber_C messagesOrdered)
                 in (case messagesLoop_C q provider withTimestamp messagesOrdered
                            (sliceIntoChunks_C messagesOrdered 4000) 0 db1 of
                       None \<Rightarrow> None
                     | Some (Inl e, db2) \<Rightarrow> Some (Inl e, st1, db2)
                     | Some (Inr totalImported, db2) \<Rightarrow>
                         Some (Inr (Some totalImported),
                               clearAll (deleteHistoryMessages st1 inst) inst, db2))))"

subsection \<open>The message importer, revision A\<close>

text \<open>
  \<^verbatim>\<open>getAllConversationIds\<close>: the rows of the select, or nothing when the query threw
  (the error is caught inside).
\<close>

definition getAllConversationIds ::
  "'db pgClient \<Rightarrow> jsval \<Rightarrow> int \<Rightarrow> int \<Rightarrow> 'db \<Rightarrow> (string \<times> jsval) list list option \<times> 'db" where
  "getAllConversationIds q accountId firstTs lastTs db =
     (case q (SqlConversations_A accountId firstTs lastTs) db of
        (Inl e, db1) \<Rightarrow> (None, db1)
      | (Inr result, db1) \<Rightarrow> (Some (rows result), db1))"

text \<open>
  \<^verbatim>\<open>message.message?.conversation || message.message?.extendedTextMessage?.text || ''\<close>
\<close>

definition contentOf_A :: "MessageRaw \<Rightarrow> jsval" where
  "contentOf_A message =
     (case mr_message message of
        None \<Rightarrow> Str []
      | Some content \<Rightarrow> js_or (js_or (mc_conversation content) (mc_extendedText content)) (Str []))"

text \<open>
  The \<^verbatim>\<open>for (const message of messagesOrderedByTimestamp)\<close> loop. A message whose
  \<^verbatim>\<open>from\<close> is no staged contact is skipped. \<^verbatim>\<open>conversations.find\<close> is a
  \<^verbatim>\<open>TypeError\<close> when \<^verbatim>\<open>getAllConversationIds\<close> gave nothing. \<open>createConversation\<close> is
  \<^verbatim>\<open>chatwootService.createConversation\<close> followed by the read of the \<^verbatim>\<open>id\<close> of its
  result: the service is not in the sources, so it is a parameter, taking the account,
  the contact id, the inbox and the source id.
  \<^verbatim>\<open>new Date(message.messageTimestamp * 1000).toISOString()\<close>, evaluated when the bind
  values are built, throws a \<^verbatim>\<open>RangeError\<close> when the time is beyond the 8.64e15
  milliseconds on either side of the epoch that a \<^verbatim>\<open>Date\<close> holds.
\<close>

definition validTime :: "int \<Rightarrow> bool" where
  "validTime t = (\<bar>t\<bar> \<le> 8640000000000000)"

fun messagesLoop_A ::
  "'db pgClient \<Rightarrow> (jsval \<Rightarrow> string \<Rightarrow> jsval \<Rightarrow> string \<Rightarrow> 'db \<Rightarrow> (error + jsval) \<times> 'db)
   \<Rightarrow> ChatwootRaw \<Rightarrow> jsval \<Rightarrow> ContactRaw list \<Rightarrow> MessageRaw list
   \<Rightarrow> (string \<times> jsval) list list option \<Rightarrow> nat \<Rightarrow> 'db \<Rightarrow> (error + nat) \<times> 'db" where
  "messagesLoop_A q createConversation provider userId contacts [] conversations totalImported db =
     (Inr totalImported, db)"
| "messagesLoop_A q createConversation provider userId contacts (message # messages) conversations
     totalImported db =
     (case find (\<lambda>contact. cr_id contact = mr_from message) contacts of
        None \<Rightarrow>
          messagesLoop_A q createConversation provider userId contacts messages conversations
            totalImported db
      | Some sender \<Rightarrow>
          (case conversations of
             None \<Rightarrow> (Inl (TypeError ''conversations is undefined''), db)
           | Some convs \<Rightarrow>
               (case (case find (\<lambda>conv. col conv ''phone_number'' = Str (phoneOf (mr_from message)))
                                convs of
                        Some conversation \<Rightarrow> (Inr (conversation, convs), db)
                      | None \<Rightarrow>
                          (case createConversation (p_account_id provider) (cr_id sender)
                                  (p_inbox_id provider) (mr_remoteJid message) db of
                             (Inl e, db1) \<Rightarrow> (Inl e, db1)
                           | (Inr createdId, db1) \<Rightarrow>
                               (Inr ([(''phone_number'', Str (phoneOf (mr_from message))),
                                      (''contact_id'', Str (cr_id sender)),
                                      (''conversation_id'', createdId)],
                                     convs @ [[(''phone_number'', Str (phoneOf (mr_from message))),
                                               (''contact_id'', Str (cr_id sender)),
                                               (''conversation_id'', createdId)]]), db1))) of
                  (Inl e, db1) \<Rightarrow> (Inl e, db1)
                | (Inr (conversation, convs1), db1) \<Rightarrow>
                    if \<not> validTime (mr_messageTimestamp message * 1000)
                    then (Inl (RangeError ''Invalid time value''), db1)
                    else
                      (case q (SqlInsertMessage_A (contentOf_A message) (p_account_id provider)
                                 (p_inbox_id provider) (col conversation ''conversation_id'') userId
                                 (mr_messageTimestamp message)) db1 of
                         (Inl e, db2) \<Rightarrow> (Inl e, db2)
                       | (Inr result, db2) \<Rightarrow>
                           messagesLoop_A q createConversation provider userId contacts messages
                             (Some convs1) (totalImported + rowCount result) db2))))"

definition importHistoryMessages_A ::
  "'db pgClient \<Rightarrow> (jsval \<Rightarrow> string \<Rightarrow> jsval \<Rightarrow> string \<Rightarrow> 'db \<Rightarrow> (error + jsval) \<times> 'db)
   \<Rightarrow> InstanceDto \<Rightarrow> ChatwootRaw \<Rightarrow> ChatwootImport \<Rightarrow> 'db \<Rightarrow> 'db imported" where
  "importHistoryMessages_A q createConversation inst provider st db =
     (case getChatwootUser_A q provider db of
        (None, db1) \<Rightarrow> Some (Inl userNotFound, st, db1)
      | (Some chatwootUser, db1) \<Rightarrow>
          (case historyMessages st (instanceName inst) of
             None \<Rightarrow> Some (Inr (Some 0), st, db1)
           | Some staged \<Rightarrow>
               let messagesOrderedByTimestamp = js_sort compareMessages_A staged;
                   st1 = writeMessages st (instanceName inst) messagesOrderedByTimestamp
               in (case messagesOrderedByTimestamp of
                     [] \<Rightarrow> Some (Inr (Some 0), st1, db1)
                   | m0 # ms \<Rightarrow>
                       (case getAllConversationIds q (p_account_id provider)
                               (mr_messageTimestamp m0) (mr_messageTimestamp (last (m0 # ms))) db1 of
                          (conversations, db2) \<Rightarrow>
                            (case messagesLoop_A q createConversation provider
                                    (col chatwootUser ''user_id'')
                                    (case historyContacts st1 (instanceName inst) of
                                       Some cs \<Rightarrow> cs | None \<Rightarrow> [])
                                    messagesOrderedByTimestamp conversations 0 db2 of
                               (Inl e, db3) \<Rightarrow> Some (Inl e, st1, db3)
                             | (Inr totalImported, db3) \<Rightarrow>
                                 Some (Inr (Some totalImported),
                                       clearAll (deleteHistoryMessages st1 inst) inst, db3))))))"

subsection \<open>Concrete inputs\<close>

text \<open>
  A database that accepts every statement, affects no row and returns no row; its state
  is the number of statements it has run.
\<close>

definition okClient :: "nat pgClient" where
  "okClient s n = (Inr \<lparr>rowCount = 0, rows = []\<rparr>, Suc n)"

text \<open>A database whose every statement throws.\<close>

definition downClient :: "nat pgClient" where
  "downClient s n = (Inl (PgError ''connection refused''), Suc n)"

definition tenant1 :: InstanceDto where
  "tenant1 = \<lparr>instanceName = ''t1''\<rparr>"

definition tenant2 :: InstanceDto where
  "tenant2 = \<lparr>instanceName = ''t2''\<rparr>"

definition provider1 :: ChatwootRaw where
  "provider1 = \<lparr>p_account_id = Num 1, p_inbox_id = Num 7, p_id = Num 7, p_email = Str ''a@b.c''\<rparr>"

definition inbox1 :: Inbox where
  "inbox1 = \<lparr>inbox_id = Num 7\<rparr>"

definition alice :: ContactRaw where
  "alice = \<lparr>cr_id = ''100@d'', cr_pushName = Str ''Alice''\<rparr>"

definition bob :: ContactRaw where
  "bob = \<lparr>cr_id = ''200@d'', cr_pushName = Str ''Bob''\<rparr>"

definition msg :: "string \<Rightarrow> int \<Rightarrow> string \<Rightarrow> MessageRaw" where
  "msg jid ts txt =
     \<lparr>mr_remoteJid = jid, mr_messageTimestamp = ts,
      mr_message = Some \<lparr>mc_conversation = Str txt, mc_extendedText = Undefined\<rparr>,
      mr_pushName = Str ''Alice'', mr_messageText = Str txt, mr_from = jid\<rparr>"

definition emptyStore :: ChatwootImport where
  "emptyStore = \<lparr>repositoryMessagesCache = Map.empty, historyMessages = Map.empty,
                  historyContacts = Map.empty\<rparr>"

text \<open>What the staging store holds for one tenant.\<close>

definition stagedOf ::
  "ChatwootImport \<Rightarrow> string \<Rightarrow> string set option \<times> MessageRaw list option \<times> ContactRaw list option" where
  "stagedOf st name = (repositoryMessagesCache st name, historyMessages st name, historyContacts st name)"

text \<open>
  The scenario of the specification: the contacts \<^verbatim>\<open>100@d\<close> (Alice) and \<^verbatim>\<open>200@d\<close> (Bob)
  and three messages of \<^verbatim>\<open>100@d\<close> at the timestamps 10, 5 and 20, staged for the first
  tenant; the second tenant has staged data of its own.
\<close>

definition storeContacts :: ChatwootImport where
  "storeContacts =
     addHistoryContacts (addHistoryContacts emptyStore tenant1 [alice, bob]) tenant2 [bob]"

definition storeMessages :: ChatwootImport where
  "storeMessages =
     addHistoryMessages
       (addHistoryMessages storeContacts tenant1
          [msg ''100@d'' 10 ''hi'', msg ''100@d'' 5 ''yo'', msg ''100@d'' 20 ''bye''])
       tenant2 [msg ''200@d'' 7 ''hello'']"

subsection \<open>A relational model of the database\<close>

text \<open>
  A database to run the importers on: the tables the statements name, with the
  semantics PostgreSQL gives each statement. The tables hold the columns the statements
  read or write:
  \<^item> \<open>pg_labels\<close>: (title, account id);
  \<^item> \<open>pg_tags\<close>: (id, name, taggings count);
  \<^item> \<open>pg_taggings\<close>: (tag id, taggable id);
  \<^item> \<open>pg_contacts\<close>: (id, name, phone number, account id, identifier), with the unique
    index on (identifier, account id) that every \<^verbatim>\<open>ON CONFLICT (identifier, account_id)\<close>
    of the sources presupposes;
  \<^item> \<open>pg_conversations\<close>: (id, account id, inbox id, contact id, created at);
  \<^item> \<open>pg_messages\<close>: (content, account id, inbox id, conversation id, created at);
  \<^item> \<open>pg_users\<close>: (user id, user type, email, account id).

  \<open>pg_nextId\<close> is the next value of the id sequences and \<open>pg_now\<close> the clock:
  \<^verbatim>\<open>NOW()\<close> is one value for all rows of a statement, and the clock moves on after each
  statement. \<open>pg_stmtNo\<close> counts the statements received and \<open>pg_failing\<close> lists the
  numbers of those at which the connection fails, so that a run with any failure can be
  written down. Two facts of the schema are not in the sources and are left open:
  \<open>pg_uniqueTagName\<close> (a unique index on the name of a tag) and \<open>pg_uniqueMessages\<close> (a
  unique index on (conversation id, created at) of a message, without which PostgreSQL
  rejects the \<^verbatim>\<open>ON CONFLICT (conversation_id, created_at)\<close> of revision B).
\<close>

record pgdb =
  pg_labels :: "(string \<times> jsval) list"
  pg_tags :: "(nat \<times> string \<times> nat) list"
  pg_taggings :: "(jsval \<times> jsval) list"
  pg_contacts :: "(nat \<times> jsval \<times> string \<times> jsval \<times> string) list"
  pg_conversations :: "(nat \<times> jsval \<times> jsval \<times> jsval \<times> jsval) list"
  pg_messages :: "(jsval \<times> jsval \<times> jsval \<times> jsval \<times> jsval) list"
  pg_users :: "(jsval \<times> jsval \<times> jsval \<times> jsval) list"
  pg_nextId :: nat
  pg_now :: int
  pg_stmtNo :: nat
  pg_failing :: "nat list"
  pg_uniqueTagName :: bool
  pg_uniqueMessages :: bool

definition idOf :: "nat \<Rightarrow> jsval" where
  "idOf n = Num (int n)"

definition idRow :: "nat \<Rightarrow> (string \<times> jsval) list" where
  "idRow n = [(''id'', idOf n)]"

definition uniqueViolation :: error where
  "uniqueViolation = PgError ''duplicate key value violates unique constraint''"

definition secondTime :: error where
  "secondTime = PgError ''ON CONFLICT DO UPDATE command cannot affect row a second time''"

definition syntaxError :: error where
  "syntaxError = PgError ''syntax error at or near ON''"

definition noConstraint :: error where
  "noConstraint =
     PgError ''there is no unique or exclusion constraint matching the ON CONFLICT specification''"

text \<open>Tags.\<close>

definition tagsNamed :: "string \<Rightarrow> (nat \<times> string \<times> nat) list \<Rightarrow> (nat \<times> string \<times> nat) list" where
  "tagsNamed name tags = filter (\<lambda>t. fst (snd t) = name) tags"

definition tagRow :: "nat \<times> string \<times> nat \<Rightarrow> (string \<times> jsval) list" where
  "tagRow t = [(''id'', idOf (fst t)), (''taggings_count'', Num (int (snd (snd t))))]"

definition bumpTag :: "nat \<Rightarrow> string \<Rightarrow> nat \<times> string \<times> nat \<Rightarrow> nat \<times> string \<times> nat" where
  "bumpTag n name t = (if fst (snd t) = name then (fst t, fst (snd t), snd (snd t) + n) else t)"

text \<open>
  Contacts: the row with the identifier and account, if any; the upsert of one proposed
  row (update where it stands, or append under a new id), giving the id affected.
\<close>

definition contactKey :: "nat \<times> jsval \<times> string \<times> jsval \<times> string \<Rightarrow> string \<times> jsval" where
  "contactKey c = (snd (snd (snd (snd c))), fst (snd (snd (snd c))))"

definition findContact ::
  "string \<Rightarrow> jsval \<Rightarrow> (nat \<times> jsval \<times> string \<times> jsval \<times> string) list
   \<Rightarrow> (nat \<times> jsval \<times> string \<times> jsval \<times> string) option" where
  "findContact identifier account cs = find (\<lambda>c. contactKey c = (identifier, account)) cs"

fun upsertContacts ::
  "jsval \<Rightarrow> (jsval \<times> string \<times> string) list \<Rightarrow> (nat \<times> jsval \<times> string \<times> jsval \<times> string) list
   \<Rightarrow> nat \<Rightarrow> (nat \<times> jsval \<times> string \<times> jsval \<times> string) list \<times> nat \<times> nat list" where
  "upsertContacts account [] cs next = (cs, next, [])"
| "upsertContacts account (r # rs) cs next =
     (case findContact (snd (snd r)) account cs of
        Some old \<Rightarrow>
          (case upsertContacts account rs
                  (map (\<lambda>c. if contactKey c = (snd (snd r), account)
                             then (fst c, fst r, fst (snd r), account, snd (snd r)) else c) cs)
                  next of
             (cs', next', ids) \<Rightarrow> (cs', next', fst old # ids))
      | None \<Rightarrow>
          (case upsertContacts account rs
                  (cs @ [(next, fst r, fst (snd r), account, snd (snd r))]) (Suc next) of
             (cs', next', ids) \<Rightarrow> (cs', next', next # ids)))"

text \<open>
  Messages: the key of the conflict target, and the upsert of one proposed row
  (\<^verbatim>\<open>DO UPDATE SET content = EXCLUDED.content\<close>).
\<close>

definition messageKey :: "jsval \<times> jsval \<times> jsval \<times> jsval \<times> jsval \<Rightarrow> jsval \<times> jsval" where
  "messageKey m = (fst (snd (snd (snd m))), snd (snd (snd (snd m))))"

fun upsertMessages ::
  "(jsval \<times> jsval \<times> jsval \<times> jsval \<times> jsval) list \<Rightarrow> (jsval \<times> jsval \<times> jsval \<times> jsval \<times> jsval) list
   \<Rightarrow> (jsval \<times> jsval \<times> jsval \<times> jsval \<times> jsval) list" where
  "upsertMessages [] ms = ms"
| "upsertMessages (r # rs) ms =
     (if List.member (map messageKey ms) (messageKey r)
      then upsertMessages rs
             (map (\<lambda>m. if messageKey m = messageKey r
                        then (fst r, fst (snd m), fst (snd (snd m)), fst (snd (snd (snd m))),
                              snd (snd (snd (snd m))))
                        else m) ms)
      else upsertMessages rs (ms @ [r]))"

text \<open>
  The left join of revision B's select: one row per conversation of a contact, and one
  row with a null conversation for a contact that has none.
\<close>

definition fksRows ::
  "(nat \<times> jsval \<times> jsval \<times> jsval \<times> jsval) list \<Rightarrow> nat \<times> jsval \<times> string \<times> jsval \<times> string
   \<Rightarrow> (string \<times> jsval) list list" where
  "fksRows convs c =
     (case filter (\<lambda>con. fst (snd (snd (snd con))) = idOf (fst c)) convs of
        [] \<Rightarrow> [[(''phone_number'', Str (fst (snd (snd c)))), (''contact_id'', idOf (fst c)),
                (''conversation_id'', Null)]]
      | con # cons \<Rightarrow>
          map (\<lambda>con. [(''phone_number'', Str (fst (snd (snd c)))), (''contact_id'', idOf (fst c)),
                       (''conversation_id'', idOf (fst con))]) (con # cons))"

text \<open>The rows of a user lookup.\<close>

definition userRow :: "jsval \<times> jsval \<times> jsval \<times> jsval \<Rightarrow> (string \<times> jsval) list" where
  "userRow u = [(''user_type'', fst (snd u)), (''user_id'', fst u)]"

text \<open>
  \<open>pg_exec\<close>: the effect of a statement that the connection delivered. \<open>Inl\<close> is the
  error PostgreSQL raises, and the tables are then as before.
\<close>

definition selected :: "(string \<times> jsval) list list \<Rightarrow> pgdb \<Rightarrow> error + QueryResult \<times> pgdb" where
  "selected rs db = Inr (\<lparr>rowCount = length rs, rows = rs\<rparr>, db)"

fun pg_exec :: "stmt \<Rightarrow> pgdb \<Rightarrow> error + QueryResult \<times> pgdb" where
  "pg_exec (SqlCheckLabel title account) db =
     selected (map (\<lambda>l. [(''?column?'', Num 1)]) (filter (\<lambda>l. l = (title, account)) (pg_labels db))) db"
| "pg_exec (SqlInsertLabel title account) db =
     Inr (\<lparr>rowCount = 1, rows = [[(''id'', idOf (pg_nextId db)), (''title'', Str title)]]\<rparr>,
          db\<lparr>pg_labels := pg_labels db @ [(title, account)], pg_nextId := Suc (pg_nextId db)\<rparr>)"
| "pg_exec (SqlCheckTag name) db = selected (map tagRow (tagsNamed name (pg_tags db))) db"
| "pg_exec (SqlInsertTag name n) db =
     (if pg_uniqueTagName db \<and> tagsNamed name (pg_tags db) \<noteq> [] then Inl uniqueViolation
      else Inr (\<lparr>rowCount = 1, rows = [idRow (pg_nextId db)]\<rparr>,
                db\<lparr>pg_tags := pg_tags db @ [(pg_nextId db, name, n)],
                   pg_nextId := Suc (pg_nextId db)\<rparr>))"
| "pg_exec (SqlUpdateTag n name) db =
     Inr (\<lparr>rowCount = length (tagsNamed name (pg_tags db)),
           rows = map (\<lambda>t. idRow (fst t)) (tagsNamed name (pg_tags db))\<rparr>,
          db\<lparr>pg_tags := map (bumpTag n name) (pg_tags db)\<rparr>)"
| "pg_exec (SqlInsertTaggings_A tagId contactId) db =
     Inr (\<lparr>rowCount = 1, rows = []\<rparr>, db\<lparr>pg_taggings := pg_taggings db @ [(tagId, contactId)]\<rparr>)"
| "pg_exec (SqlInsertTaggings_C tagId contactId createdAt) db =
     Inr (\<lparr>rowCount = 1, rows = []\<rparr>, db\<lparr>pg_taggings := pg_taggings db @ [(tagId, Str contactId)]\<rparr>)"
| "pg_exec (SqlInsertContactsReturning account rs) db =
     (if rs = [] then Inl syntaxError
      else if \<not> distinct (map (\<lambda>r. snd (snd r)) rs) then Inl secondTime
      else (case upsertContacts account rs (pg_contacts db) (pg_nextId db) of
              (cs, next, ids) \<Rightarrow>
                Inr (\<lparr>rowCount = length rs, rows = map idRow ids\<rparr>,
                     db\<lparr>pg_contacts := cs, pg_nextId := next\<rparr>)))"
| "pg_exec (SqlInsertContacts account rs) db =
     (if rs = [] then Inl syntaxError
      else if \<not> distinct (map (\<lambda>r. snd (snd r)) rs) then Inl secondTime
      else (case upsertContacts account rs (pg_contacts db) (pg_nextId db) of
              (cs, next, ids) \<Rightarrow>
                Inr (\<lparr>rowCount = length rs, rows = []\<rparr>,
                     db\<lparr>pg_contacts := cs, pg_nextId := next\<rparr>)))"
| "pg_exec (SqlUser_A account) db =
     selected (map userRow (take 1 (filter (\<lambda>u. snd (snd (snd u)) = account) (pg_users db)))) db"
| "pg_exec (SqlUser_B email) db =
     selected (map userRow (filter (\<lambda>u. fst (snd (snd u)) = email) (pg_users db))) db"
| "pg_exec (SqlUser_C email) db =
     selected (map userRow (filter (\<lambda>u. fst (snd (snd u)) = email) (pg_users db))) db"
| "pg_exec (SqlConversations_A account firstTs lastTs) db =
     selected
       (concat (map (\<lambda>con.
          map (\<lambda>c. [(''conversation_id'', idOf (fst con)), (''phone_number'', Str (fst (snd (snd c))))])
              (filter (\<lambda>c. idOf (fst c) = fst (snd (snd (snd con)))) (pg_contacts db)))
          (filter (\<lambda>con. fst (snd con) = account
                      \<and> (case snd (snd (snd (snd con))) of
                            Num t \<Rightarrow> firstTs \<le> t \<and> t \<le> lastTs | _ \<Rightarrow> False))
                  (pg_conversations db)))) db"
| "pg_exec (SqlInsertMessage_A content account inbox conversation userId ts) db =
     (if pg_uniqueMessages db \<and> List.member (map messageKey (pg_messages db)) (conversation, Num ts)
      then Inl uniqueViolation
      else Inr (\<lparr>rowCount = 1, rows = []\<rparr>,
                db\<lparr>pg_messages := pg_messages db @ [(content, account, inbox, conversation, Num ts)]\<rparr>))"
| "pg_exec (SqlSelectFks_B phones) db =
     selected (concat (map (fksRows (pg_conversations db))
                 (filter (\<lambda>c. List.member phones (fst (snd (snd c)))) (pg_contacts db)))) db"
| "pg_exec (SqlInsertContact_B name phone account identifier) db =
     (case findContact identifier account (pg_contacts db) of
        Some c \<Rightarrow> Inl uniqueViolation
      | None \<Rightarrow>
          Inr (\<lparr>rowCount = 1, rows = [idRow (pg_nextId db)]\<rparr>,
               db\<lparr>pg_contacts := pg_contacts db @ [(pg_nextId db, name, phone, account, identifier)],
                  pg_nextId := Suc (pg_nextId db)\<rparr>))"
| "pg_exec (SqlInsertConversation_B account inbox contactId) db =
     Inr (\<lparr>rowCount = 1, rows = [idRow (pg_nextId db)]\<rparr>,
          db\<lparr>pg_conversations :=
                pg_conversations db @ [(pg_nextId db, account, inbox, contactId, Num (pg_now db))],
             pg_nextId := Suc (pg_nextId db)\<rparr>)"
| "pg_exec (SqlInsertMsgs_B account inbox rs) db =
     (if rs = [] then Inl syntaxError
      else if \<not> pg_uniqueMessages db then Inl noConstraint
      else if \<not> distinct (map (\<lambda>r. (fst (snd r), Num (fst (snd (snd r))))) rs) then Inl secondTime
      else Inr (\<lparr>rowCount = length rs, rows = []\<rparr>,
                db\<lparr>pg_messages :=
                      upsertMessages
                        (map (\<lambda>r. (fst r, account, inbox, fst (snd r), Num (fst (snd (snd r))))) rs)
                        (pg_messages db)\<rparr>))"
| "pg_exec (SqlSelectOrCreate_C account phone name createdAt identifier inbox convCreatedAt) db =
     (case findContact identifier account (pg_contacts db) of
        Some c \<Rightarrow>
          Inr (\<lparr>rowCount = 1,
                rows = [[(''contact_id'', idOf (fst c)), (''conversation_id'', idOf (pg_nextId db))]]\<rparr>,
               db\<lparr>pg_conversations :=
                     pg_conversations db @ [(pg_nextId db, account, inbox, idOf (fst c), convCreatedAt)],
                  pg_nextId := Suc (pg_nextId db)\<rparr>)
      | None \<Rightarrow>
          Inr (\<lparr>rowCount = 1,
                rows = [[(''contact_id'', idOf (pg_nextId db)),
                         (''conversation_id'', idOf (Suc (pg_nextId db)))]]\<rparr>,
               db\<lparr>pg_contacts := pg_contacts db @ [(pg_nextId db, name, phone, account, identifier)],
                  pg_conversations :=
                     pg_conversations db
                       @ [(Suc (pg_nextId db), account, inbox, idOf (pg_nextId db), convCreatedAt)],
                  pg_nextId := Suc (Suc (pg_nextId db))\<rparr>))"
| "pg_exec (SqlInsertMsgs_C rs) db =
     (if rs = [] then Inl syntaxError
      else if pg_uniqueMessages db
              \<and> \<not> distinct (map messageKey (pg_messages db)
                              @ map (\<lambda>r. (fst (snd (snd r)), Num (pg_now db))) rs)
      then Inl uniqueViolation
      else Inr (\<lparr>rowCount = length rs, rows = []\<rparr>,
                db\<lparr>pg_messages :=
                      pg_messages db
                        @ map (\<lambda>r. (snd (snd (snd r)), fst r, fst (snd r), fst (snd (snd r)),
                                    Num (pg_now db))) rs\<rparr>))"

text \<open>
  The client: the statement fails when its number is listed, and is executed otherwise;
  in both cases the statement is counted and the clock moves on.
\<close>

definition tick :: "pgdb \<Rightarrow> pgdb" where
  "tick db = db\<lparr>pg_stmtNo := Suc (pg_stmtNo db), pg_now := pg_now db + 1\<rparr>"

definition pgClient :: "pgdb pgClient" where
  "pgClient s db =
     (if List.member (pg_failing db) (pg_stmtNo db)
      then (Inl (PgError ''connection terminated''), tick db)
      else (case pg_exec s db of
              Inl e \<Rightarrow> (Inl e, tick db)
            | Inr (result, db1) \<Rightarrow> (Inr result, tick db1)))"

text \<open>
  An empty database with one user, for the account and e-mail address of \<open>provider1\<close>,
  with the stock schema (a unique tag name, no unique index on the messages), and the
  same with the index on the messages that revision B's insert needs.
\<close>

definition db0 :: pgdb where
  "db0 = \<lparr>pg_labels = [], pg_tags = [], pg_taggings = [], pg_contacts = [],
          pg_conversations = [], pg_messages = [],
          pg_users = [(Num 1, Str ''administrator'', Str ''a@b.c'', Num 1)],
          pg_nextId = 1, pg_now = 1000, pg_stmtNo = 0, pg_failing = [],
          pg_uniqueTagName = True, pg_uniqueMessages = False\<rparr>"

definition db0u :: pgdb where
  "db0u = db0\<lparr>pg_uniqueMessages := True\<rparr>"

text \<open>
  The parts of the outcome of an importer: what it returned or caught, what the staging
  store holds for a tenant afterwards, and the database afterwards.
\<close>

definition resultOf :: "'db imported \<Rightarrow> (error + nat option) option" where
  "resultOf run = map_option fst run"

definition stagedAfter ::
  "'db imported \<Rightarrow> string
   \<Rightarrow> (string set option \<times> MessageRaw list option \<times> ContactRaw list option) option" where
  "stagedAfter run name = map_option (\<lambda>r. stagedOf (fst (snd r)) name) run"

definition dbAfter :: "'db imported \<Rightarrow> 'db option" where
  "dbAfter run = map_option (\<lambda>r. snd (snd r)) run"

text \<open>A service whose \<^verbatim>\<open>getMessageContent\<close> finds no content.\<close>

definition noContent :: "MessageContent option \<Rightarrow> jsval" where
  "noContent c = Undefined"

text \<open>A service whose \<^verbatim>\<open>createConversation\<close> returns a conversation with the id 77.\<close>

definition createsConversation77 :: "jsval \<Rightarrow> string \<Rightarrow> jsval \<Rightarrow> string \<Rightarrow> pgdb \<Rightarrow> (error + jsval) \<times> pgdb" where
  "createsConversation77 account contactId inbox sourceId db = (Inr (Num 77), db)"

text \<open>
  More inputs: the database with a connection that fails at the statement number \<open>n\<close>;
  one message staged twice (with and without its sender among the staged contacts); a
  database that has the tag of the first tenant with the count 5; a database without a
  user.
\<close>

definition failingAt :: "nat \<Rightarrow> pgdb \<Rightarrow> pgdb" where
  "failingAt n db = db\<lparr>pg_failing := [n]\<rparr>"

definition hi :: MessageRaw where
  "hi = msg ''100@d'' 10 ''hi''"

definition storeTwice :: ChatwootImport where
  "storeTwice = addHistoryMessages (addHistoryMessages emptyStore tenant1 [hi]) tenant1 [hi]"

definition storeTwiceWithSender :: ChatwootImport where
  "storeTwiceWithSender = addHistoryContacts storeTwice tenant1 [alice]"

definition storeOnce :: ChatwootImport where
  "storeOnce = addHistoryMessages emptyStore tenant1 [hi]"

definition dbTagged :: pgdb where
  "dbTagged = db0\<lparr>pg_tags := [(1, ''t1'', 5)], pg_nextId := 2\<rparr>"

definition dbNoUser :: pgdb where
  "dbNoUser = db0\<lparr>pg_users := []\<rparr>"

subsection \<open>Staged messages for the order of the rows\<close>

text \<open>
  A store in which the first tenant has two messages of \<^verbatim>\<open>100@d\<close>, one of \<^verbatim>\<open>50@d\<close> and
  a status update, whose identifier \<^verbatim>\<open>status@broadcast\<close> starts with no number.
\<close>

definition chatBroadcast :: "MessageRaw list" where
  "chatBroadcast =
     [msg ''100@d'' 5 ''yo'', msg ''50@d'' 20 ''far'', msg ''status@broadcast'' 15 ''story'',
      msg ''100@d'' 10 ''hi'']"

definition storeBroadcast :: ChatwootImport where
  "storeBroadcast = addHistoryMessages emptyStore tenant1 chatBroadcast"

text \<open>The timestamp column of a row of revision B's insert.\<close>

definition createdAt_B :: "jsval \<times> jsval \<times> int \<times> jsval \<Rightarrow> int" where
  "createdAt_B row = fst (snd (snd row))"

text \<open>Every identifier starts with a number, as \<^verbatim>\<open>parseInt\<close> reads it.\<close>

definition allParse :: "MessageRaw list \<Rightarrow> bool" where
  "allParse messages = list_all (\<lambda>m. parseInt (mr_remoteJid m) \<noteq> None) messages"

text \<open>
  What \<^verbatim>\<open>createMessagesMapByPhoneNumber\<close> builds: a map with distinct keys that holds,
  for each key of a message of \<open>xs\<close>, the messages of \<open>xs\<close> with that key in their order.
\<close>

definition groupedBy ::
  "(MessageRaw \<Rightarrow> string) \<Rightarrow> (string \<times> MessageRaw list) list \<Rightarrow> MessageRaw list \<Rightarrow> bool" where
  "groupedBy keyOf m xs =
     (distinct (map fst m)
      \<and> (\<forall>k. map_of m k = (if k \<in> keyOf ` set xs then Some (filter (\<lambda>x. keyOf x = k) xs) else None)))"

section \<open>Properties of the chunking helper\<close>

lemma js_slice_0: "js_slice arr 0 n = take n arr"
  by (simp add: js_slice_def)

lemma sliceIntoChunks_C_take: "sliceIntoChunks_C arr n = take n arr"
  by (simp add: sliceIntoChunks_C_def js_slice_def)

text \<open>
  Revision A: for a positive chunk size the loop returns, and the slices it has pushed
  from index \<open>i\<close> on join to the rest of the array from \<open>i\<close>.
\<close>

lemma sliceLoop_A_returns:
  assumes "0 < c"
  shows "\<exists>cs. sliceLoop_A arr c i res = Some (res @ cs) \<and> concat cs = drop i arr"
proof (induction "length arr - i" arbitrary: i res rule: less_induct)
  case less
  show ?case
  proof (cases "i < length arr")
    case False
    then show ?thesis by (subst sliceLoop_A.simps) simp
  next
    case True
    with assms have "length arr - (i + c) < length arr - i" by arith
    from less[OF this, of "res @ [js_slice arr i (i + c)]"]
    obtain cs where cs: "sliceLoop_A arr c (i + c) (res @ [js_slice arr i (i + c)])
          = Some ((res @ [js_slice arr i (i + c)]) @ cs)" "concat cs = drop (i + c) arr"
      by blast
    have "take c (drop i arr) @ drop (i + c) arr = drop i arr"
      by (metis add.commute append_take_drop_id drop_drop)
    with cs True show ?thesis
      by (subst sliceLoop_A.simps) (simp add: js_slice_def)
  qed
qed

lemma sliceIntoChunks_A_flat: "0 < c \<Longrightarrow> sliceIntoChunks_A arr c = Some arr"
  using sliceLoop_A_returns[of c arr 0 "[]"] by (auto simp: sliceIntoChunks_A_def)

text \<open>
  Revision B: the chunks the draining loop visits are non-empty, no longer than the
  chunk size, \<open>\<lceil>N / C\<rceil>\<close> in number, and join to the input.
\<close>

lemma chunksVisited_B_concat: "0 < c \<Longrightarrow> concat (chunksVisited_B xs c) = xs"
proof (induction xs c rule: chunksVisited_B.induct)
  case (1 messages chunkSize)
  show ?case
  proof (cases "take chunkSize messages = []")
    case True
    with 1(2) have "messages = []" by (simp add: take_eq_Nil)
    then show ?thesis by (simp add: sliceIntoChunks_B_def)
  next
    case False
    with 1 show ?thesis
      by (subst chunksVisited_B.simps) (simp add: sliceIntoChunks_B_def)
  qed
qed

lemma chunksVisited_B_bounds:
  "ch \<in> set (chunksVisited_B xs c) \<Longrightarrow> ch \<noteq> [] \<and> length ch \<le> c"
proof (induction xs c rule: chunksVisited_B.induct)
  case (1 messages chunkSize)
  from 1(2) have ne: "take chunkSize messages \<noteq> []"
    by (subst (asm) chunksVisited_B.simps) (auto simp: sliceIntoChunks_B_def split: if_splits)
  with 1(2) have "ch = take chunkSize messages
      \<or> ch \<in> set (chunksVisited_B (drop chunkSize messages) chunkSize)"
    by (subst (asm) chunksVisited_B.simps) (auto simp: sliceIntoChunks_B_def split: if_splits)
  then show ?case
  proof
    assume "ch = take chunkSize messages"
    with ne show ?thesis by simp
  next
    assume "ch \<in> set (chunksVisited_B (drop chunkSize messages) chunkSize)"
    with 1(1) ne show ?thesis by (simp add: sliceIntoChunks_B_def)
  qed
qed

lemma chunksVisited_B_length:
  "0 < c \<Longrightarrow> length (chunksVisited_B xs c) = (length xs + c - 1) div c"
proof (induction xs c rule: chunksVisited_B.induct)
  case (1 messages chunkSize)
  show ?case
  proof (cases "messages = []")
    case True
    with 1(2) show ?thesis by (simp add: sliceIntoChunks_B_def)
  next
    case False
    with 1(2) have ne: "take chunkSize messages \<noteq> []" by (simp add: take_eq_Nil)
    with 1 have ih: "length (chunksVisited_B (drop chunkSize messages) chunkSize)
        = (length messages - chunkSize + chunkSize - 1) div chunkSize"
      by (simp add: sliceIntoChunks_B_def)
    from False 1(2) have b: "length messages + chunkSize - 1 = (length messages - 1) + chunkSize"
      by (cases messages) auto
    from 1(2) have c: "((length messages - 1) + chunkSize) div chunkSize
        = (length messages - 1) div chunkSize + 1"
      using div_add_self2[of chunkSize "length messages - 1"] by simp
    have a: "(length messages - chunkSize + chunkSize - 1) div chunkSize
        = (length messages - 1) div chunkSize"
    proof (cases "chunkSize \<le> length messages")
      case True
      then show ?thesis by simp
    next
      case False
      then have "length messages - chunkSize + chunkSize - 1 < chunkSize"
        "length messages - 1 < chunkSize" using 1(2) by arith+
      then show ?thesis by simp
    qed
    have "Suc ((length messages - chunkSize + chunkSize - 1) div chunkSize)
        = (length messages + chunkSize - 1) div chunkSize"
      using a b c by simp
    with ih ne show ?thesis
      by (subst chunksVisited_B.simps) (simp add: sliceIntoChunks_B_def)
  qed
qed

section \<open>What an operation of one tenant leaves of another tenant's staged data\<close>

lemma stagedOf_writeContacts: "name \<noteq> b \<Longrightarrow> stagedOf (writeContacts st name xs) b = stagedOf st b"
  by (simp add: stagedOf_def writeContacts_def)

lemma stagedOf_writeMessages: "name \<noteq> b \<Longrightarrow> stagedOf (writeMessages st name xs) b = stagedOf st b"
  by (simp add: stagedOf_def writeMessages_def)

lemma stagedOf_deleteHistoryContacts:
  "instanceName a \<noteq> b \<Longrightarrow> stagedOf (deleteHistoryContacts st a) b = stagedOf st b"
  by (simp add: stagedOf_def deleteHistoryContacts_def)

lemma stagedOf_deleteHistoryMessages:
  "instanceName a \<noteq> b \<Longrightarrow> stagedOf (deleteHistoryMessages st a) b = stagedOf st b"
  by (simp add: stagedOf_def deleteHistoryMessages_def)

lemma stagedOf_deleteRepositoryMessagesCache:
  "instanceName a \<noteq> b \<Longrightarrow> stagedOf (deleteRepositoryMessagesCache st a) b = stagedOf st b"
  by (simp add: stagedOf_def deleteRepositoryMessagesCache_def)

lemma stagedOf_clearAll:
  "instanceName a \<noteq> b \<Longrightarrow> stagedOf (clearAll st a) b = stagedOf st b"
  by (simp add: clearAll_def stagedOf_deleteHistoryContacts stagedOf_deleteHistoryMessages
      stagedOf_deleteRepositoryMessagesCache)

lemma contactsLoop_B_frame:
  assumes "contactsLoop_B q name account contacts chunk tot st db = Some res"
  shows "name \<noteq> b \<longrightarrow> stagedOf (fst (snd res)) b = stagedOf st b"
  using assms
proof (rule contactsLoop_B.raw_induct[where P = "\<lambda>q name account contacts chunk tot st db res.
          name \<noteq> b \<longrightarrow> stagedOf (fst (snd res)) b = stagedOf st b", rotated], goal_cases)
  case (1 f q name account contacts chunk tot st db res)
  show ?case
  proof (cases "0 < length chunk")
    case False
    with 1(2) show ?thesis by auto
  next
    case True
    show ?thesis
    proof (cases "q (SqlInsertContacts account (map contactBind chunk))
                (insertLabels_B q name account chunk db)")
      case (Pair r db1)
      show ?thesis
      proof (cases r)
        case (Inl e)
        with 1(2) True Pair show ?thesis by auto
      next
        case (Inr result)
        with 1(2) True Pair have "f q name account (snd (sliceIntoChunks_B contacts 3000))
               (fst (sliceIntoChunks_B contacts 3000)) (tot + rowCount result)
               (writeContacts st name (snd (sliceIntoChunks_B contacts 3000))) db1 = Some res"
          by simp
        from 1(1)[OF this] show ?thesis by (auto simp: stagedOf_writeContacts)
      qed
    qed
  qed
qed

lemma messagesLoop_B_frame:
  assumes "messagesLoop_B q g inbox provider name wt ordered chunk tot st db = Some res"
  shows "name \<noteq> b \<longrightarrow> stagedOf (fst (snd res)) b = stagedOf st b"
  using assms
proof (rule messagesLoop_B.raw_induct[where P = "\<lambda>q g inbox provider name wt ordered chunk tot st db res.
          name \<noteq> b \<longrightarrow> stagedOf (fst (snd res)) b = stagedOf st b", rotated], goal_cases)
  case (1 f q g inbox provider name wt ordered chunk tot st db res)
  show ?case
  proof (cases "0 < length chunk")
    case False
    with 1(2) show ?thesis by auto
  next
    case True
    note chunk = True
    show ?thesis
    proof (cases "0 < length (createMessagesMapByPhoneNumber_B chunk)")
      case False
      with 1(2) chunk have "f q g inbox provider name wt ordered chunk tot st db = Some res"
        by simp
      from 1(1)[OF this] show ?thesis .
    next
      case True
      show ?thesis
      proof (cases "selectOrCreateFksFromChatwoot_B q provider inbox wt
                   (createMessagesMapByPhoneNumber_B chunk) db")
        case (Pair r db1)
        show ?thesis
        proof (cases r)
          case (Inl e)
          with 1(2) chunk True Pair show ?thesis by auto
        next
          case (Inr fks)
          show ?thesis
          proof (cases "q (SqlInsertMsgs_B (p_account_id provider) (inbox_id inbox)
                           (msgRows_B g fks (createMessagesMapByPhoneNumber_B chunk))) db1")
            case P2: (Pair r2 db2)
            show ?thesis
            proof (cases r2)
              case I2: (Inl e)
              with 1(2) chunk True Pair Inr P2 show ?thesis by auto
            next
              case R2: (Inr result)
              with 1(2) chunk True Pair Inr P2
              have "f q g inbox provider name wt (snd (sliceIntoChunks_B ordered 4000))
                       (fst (sliceIntoChunks_B ordered 4000)) (tot + rowCount result)
                       (writeMessages st name (snd (sliceIntoChunks_B ordered 4000))) db2 = Some res"
                by simp
              from 1(1)[OF this] show ?thesis by (auto simp: stagedOf_writeMessages)
            qed
          qed
        qed
      qed
    qed
  qed
qed

section \<open>The claims about the chunking helper and the staging store\<close>

text \<open>
  C1 (the chunking helper yields \<open>\<lceil>N / C\<rceil>\<close> chunks of size at most \<open>C\<close> that hold every
  element once, in order). The helper of revision C returns the first chunk on every call
  and never an element past it; the helper of revision A returns all elements as one
  sequence, longer than the chunk size. Only the draining helper of revision B, called
  until it returns nothing, visits the chunks the claim describes (lemmas
  \<open>chunksVisited_B_concat\<close>, \<open>chunksVisited_B_bounds\<close>, \<open>chunksVisited_B_length\<close>).
  The theorem evaluates the three on three elements with chunk size 2, and revisions A
  and C on 3001 elements with the chunk size 3000 of the contact importer.
\<close>

theorem C1_sliceIntoChunks_evaluated:
  "sliceIntoChunks_C [alice, bob, alice] 2 = [alice, bob]
   \<and> sliceIntoChunks_A [alice, bob, alice] 2 = Some [alice, bob, alice]
   \<and> chunksVisited_B [alice, bob, alice] 2 = [[alice, bob], [alice]]
   \<and> sliceIntoChunks_C [0 ..< 3001] 3000 = [0 ..< 3000]
   \<and> sliceIntoChunks_A [0 ..< 3001] 3000 = Some [0 ..< 3001]"
  by (simp add: sliceIntoChunks_C_take sliceIntoChunks_A_flat sliceIntoChunks_B_def)

text \<open>
  C6 (guard): when the tenant has staged messages, \<^verbatim>\<open>importHistoryContacts\<close> returns at
  once with the bare \<^verbatim>\<open>return\<close>: the staging store and the database are what they were,
  no statement having been sent. This holds in the three revisions, for every database.
\<close>

theorem C6_importHistoryContacts_guard:
  assumes "0 < getHistoryMessagesLenght st inst"
  shows "importHistoryContacts_A q inst provider st db = Some (Inr None, st, db)
       \<and> importHistoryContacts_B q inst provider st db = Some (Inr None, st, db)
       \<and> importHistoryContacts_C q createdAt inst provider st db = Some (Inr None, st, db)"
  using assms
  by (simp add: importHistoryContacts_A_def importHistoryContacts_B_def importHistoryContacts_C_def)

theorem C6_importHistoryContacts_guard_witness:
  "0 < getHistoryMessagesLenght storeMessages tenant1
   \<and> importHistoryContacts_A pgClient tenant1 provider1 storeMessages db0
       = Some (Inr None, storeMessages, db0)
   \<and> importHistoryContacts_B pgClient tenant1 provider1 storeMessages db0
       = Some (Inr None, storeMessages, db0)
   \<and> importHistoryContacts_C pgClient (Num 0) tenant1 provider1 storeMessages db0
       = Some (Inr None, storeMessages, db0)
   \<and> returned (Inr None) = None"
proof -
  have "0 < getHistoryMessagesLenght storeMessages tenant1"
    by (simp add: getHistoryMessagesLenght_def storeMessages_def storeContacts_def
        addHistoryMessages_def addHistoryContacts_def tenant1_def tenant2_def emptyStore_def)
  from this C6_importHistoryContacts_guard[OF this, of pgClient provider1 db0 "Num 0"]
  show ?thesis by (simp add: returned_def)
qed

text \<open>
  C10 (isolation of tenants): an operation invoked for the tenant \<open>a\<close> leaves what the
  staging store holds for any other key \<open>b\<close> (the dedup cache, the staged messages and
  the staged contacts) as it was. This covers every staging and clearing operation and,
  for every run that returns, the contact and message importers of the three revisions,
  over every database and service.
\<close>

theorem C10_tenant_isolation:
  assumes "instanceName a \<noteq> b"
  shows "stagedOf (setRepositoryMessagesCache st a cache) b = stagedOf st b
       \<and> stagedOf (deleteRepositoryMessagesCache st a) b = stagedOf st b
       \<and> stagedOf (addHistoryMessages st a messagesRaw) b = stagedOf st b
       \<and> stagedOf (addHistoryContacts st a contactsRaw) b = stagedOf st b
       \<and> stagedOf (deleteHistoryMessages st a) b = stagedOf st b
       \<and> stagedOf (deleteHistoryContacts st a) b = stagedOf st b
       \<and> stagedOf (clearAll st a) b = stagedOf st b
       \<and> (\<forall>run. importHistoryContacts_A q a provider st db = Some run
              \<longrightarrow> stagedOf (fst (snd run)) b = stagedOf st b)
       \<and> (\<forall>run. importHistoryContacts_B q a provider st db = Some run
              \<longrightarrow> stagedOf (fst (snd run)) b = stagedOf st b)
       \<and> (\<forall>run. importHistoryContacts_C q createdAt a provider st db = Some run
              \<longrightarrow> stagedOf (fst (snd run)) b = stagedOf st b)
       \<and> (\<forall>run. importHistoryMessages_A q createConversation a provider st db = Some run
              \<longrightarrow> stagedOf (fst (snd run)) b = stagedOf st b)
       \<and> (\<forall>run. importHistoryMessages_B q getMessageContent a inbox provider st db = Some run
              \<longrightarrow> stagedOf (fst (snd run)) b = stagedOf st b)
       \<and> (\<forall>run. importHistoryMessages_C q a provider st db = Some run
              \<longrightarrow> stagedOf (fst (snd run)) b = stagedOf st b)"
proof -
  note frames = stagedOf_writeContacts stagedOf_writeMessages stagedOf_deleteHistoryContacts
    stagedOf_deleteHistoryMessages stagedOf_deleteRepositoryMessagesCache stagedOf_clearAll
  have s1: "stagedOf (setRepositoryMessagesCache st a cache) b = stagedOf st b"
    using assms by (simp add: stagedOf_def setRepositoryMessagesCache_def)
  have s2: "stagedOf (addHistoryMessages st a messagesRaw) b = stagedOf st b"
    using assms by (simp add: stagedOf_def addHistoryMessages_def Let_def)
  have s3: "stagedOf (addHistoryContacts st a contactsRaw) b = stagedOf st b"
    using assms by (simp add: stagedOf_def addHistoryContacts_def Let_def)
  have cA: "stagedOf (fst (snd run)) b = stagedOf st b"
    if "importHistoryContacts_A q a provider st db = Some run" for run
    using that assms
    by (auto simp: importHistoryContacts_A_def Let_def frames
        split: if_splits option.splits prod.splits sum.splits)
  have cB: "stagedOf (fst (snd run)) b = stagedOf st b"
    if "importHistoryContacts_B q a provider st db = Some run" for run
  proof (cases "0 < getHistoryMessagesLenght st a
      \<or> (case historyContacts st (instanceName a) of Some cs \<Rightarrow> cs | None \<Rightarrow> []) = []")
    case True
    with that show ?thesis
      by (auto simp: importHistoryContacts_B_def Let_def split: if_splits)
  next
    case False
    define contacts where
      "contacts = (case historyContacts st (instanceName a) of Some cs \<Rightarrow> cs | None \<Rightarrow> [])"
    from False that obtain res where
      loop: "contactsLoop_B q (instanceName a) (p_account_id provider)
               (snd (sliceIntoChunks_B contacts 3000)) (fst (sliceIntoChunks_B contacts 3000)) 0
               (writeContacts st (instanceName a) (snd (sliceIntoChunks_B contacts 3000))) db
             = Some res"
      and run: "stagedOf (fst (snd run)) b = stagedOf (fst (snd res)) b"
      using assms
      by (auto simp: importHistoryContacts_B_def Let_def contacts_def frames
          split: if_splits option.splits prod.splits sum.splits)
    from contactsLoop_B_frame[OF loop, of b] assms run show ?thesis
      by (simp add: frames)
  qed
  have cC: "stagedOf (fst (snd run)) b = stagedOf st b"
    if "importHistoryContacts_C q createdAt a provider st db = Some run" for run
    using that assms
    by (auto simp: importHistoryContacts_C_def Let_def frames
        split: if_splits option.splits prod.splits sum.splits)
  have mA: "stagedOf (fst (snd run)) b = stagedOf st b"
    if "importHistoryMessages_A q createConversation a provider st db = Some run" for run
    using that assms
    by (auto simp: importHistoryMessages_A_def Let_def frames
        split: if_splits option.splits prod.splits sum.splits list.splits)
  have mB: "stagedOf (fst (snd run)) b = stagedOf st b"
    if "importHistoryMessages_B q getMessageContent a inbox provider st db = Some run" for run
  proof (cases "\<exists>staged. (\<exists>u. fst (getChatwootUser_B q provider db) = Inr (Some u))
      \<and> historyMessages st (instanceName a) = Some staged \<and> staged \<noteq> []")
    case False
    with that show ?thesis
      by (auto simp: importHistoryMessages_B_def Let_def
          split: if_splits option.splits prod.splits sum.splits)
  next
    case True
    then obtain staged u where u: "fst (getChatwootUser_B q provider db) = Inr (Some u)"
      and staged: "historyMessages st (instanceName a) = Some staged" "staged \<noteq> []"
      by blast
    define ordered where "ordered = js_sort compareMessages staged"
    from u staged that obtain res where
      loop: "messagesLoop_B q getMessageContent inbox provider (instanceName a)
               (phoneNumbersWithTimestamp (createMessagesMapByPhoneNumber_B ordered))
               (snd (sliceIntoChunks_B ordered 4000)) (fst (sliceIntoChunks_B ordered 4000)) 0
               (writeMessages (writeMessages st (instanceName a) ordered) (instanceName a)
                  (snd (sliceIntoChunks_B ordered 4000)))
               (snd (getChatwootUser_B q provider db)) = Some res"
      and run: "stagedOf (fst (snd run)) b = stagedOf (fst (snd res)) b"
      using assms
      by (cases "getChatwootUser_B q provider db")
         (auto simp: importHistoryMessages_B_def Let_def ordered_def frames
          split: if_splits option.splits prod.splits sum.splits)
    from messagesLoop_B_frame[OF loop, of b] assms run show ?thesis
      by (simp add: frames)
  qed
  have mC: "stagedOf (fst (snd run)) b = stagedOf st b"
    if "importHistoryMessages_C q a provider st db = Some run" for run
    using that assms
    by (auto simp: importHistoryMessages_C_def Let_def frames
        split: if_splits option.splits prod.splits sum.splits)
  from s1 s2 s3 cA cB cC mA mB mC assms show ?thesis
    by (simp add: frames)
qed

theorem C10_tenant_isolation_witness:
  "instanceName tenant1 \<noteq> ''t2''
   \<and> stagedOf storeMessages ''t2'' = (None, Some [msg ''200@d'' 7 ''hello''], Some [bob])
   \<and> stagedOf (addHistoryMessages storeMessages tenant1 [msg ''100@d'' 30 ''more'']) ''t2''
       = stagedOf storeMessages ''t2''
   \<and> stagedOf (clearAll storeMessages tenant1) ''t2'' = stagedOf storeMessages ''t2''
   \<and> stagedAfter (importHistoryContacts_B pgClient tenant1 provider1 storeContacts db0) ''t2''
       = Some (stagedOf storeContacts ''t2'')
   \<and> stagedAfter (importHistoryMessages_B pgClient noContent tenant1 inbox1 provider1
                      storeMessages db0u) ''t2''
       = Some (stagedOf storeMessages ''t2'')"
proof -
  have ne: "instanceName tenant1 \<noteq> ''t2''"
    by (simp add: tenant1_def)
  have t2: "stagedOf storeMessages ''t2'' = (None, Some [msg ''200@d'' 7 ''hello''], Some [bob])"
    by (simp add: stagedOf_def storeMessages_def storeContacts_def addHistoryMessages_def
        addHistoryContacts_def tenant1_def tenant2_def emptyStore_def)
  have "importHistoryContacts_B pgClient tenant1 provider1 storeContacts db0 \<noteq> None"
    by code_simp
  then obtain run1 where
    run1: "importHistoryContacts_B pgClient tenant1 provider1 storeContacts db0 = Some run1"
    by blast
  have "importHistoryMessages_B pgClient noContent tenant1 inbox1 provider1 storeMessages db0u
      \<noteq> None"
    by code_simp
  then obtain run2 where
    run2: "importHistoryMessages_B pgClient noContent tenant1 inbox1 provider1 storeMessages db0u
             = Some run2"
    by blast
  note iso = C10_tenant_isolation[OF ne]
  from iso[of storeMessages "{}" "[msg ''100@d'' 30 ''more'']" "[]" pgClient provider1 db0u
      "Num 0" createsConversation77 noContent inbox1] run2
  have a: "stagedOf (addHistoryMessages storeMessages tenant1 [msg ''100@d'' 30 ''more'']) ''t2''
             = stagedOf storeMessages ''t2''"
    and b: "stagedOf (clearAll storeMessages tenant1) ''t2'' = stagedOf storeMessages ''t2''"
    and c: "stagedOf (fst (snd run2)) ''t2'' = stagedOf storeMessages ''t2''"
    by blast+
  from iso[of storeContacts "{}" "[]" "[]" pgClient provider1 db0
      "Num 0" createsConversation77 noContent inbox1] run1
  have d: "stagedOf (fst (snd run1)) ''t2'' = stagedOf storeContacts ''t2''"
    by blast
  from ne t2 a b c d run1 run2 show ?thesis
    by (simp add: stagedAfter_def)
qed

section \<open>Termination of the chunk loops\<close>

text \<open>
  Revisions A and C: \<^verbatim>\<open>contacts\<close> is never shortened and the next chunk is taken from
  its start again, so a round that does not throw is followed by another round: the only
  way out of the loop is an error of the insert.
\<close>

lemma contactsLoop_C_leaves_by_error:
  assumes "contactsLoop_C q account contacts chunk tot db = Some res"
  shows "contacts \<noteq> [] \<and> chunk \<noteq> [] \<longrightarrow> (\<exists>e. fst res = Inl e)"
  using assms
proof (rule contactsLoop_C.raw_induct[where P = "\<lambda>q account contacts chunk tot db res.
          contacts \<noteq> [] \<and> chunk \<noteq> [] \<longrightarrow> (\<exists>e. fst res = Inl e)", rotated], goal_cases)
  case (1 f q account contacts chunk tot db res)
  show ?case
  proof (intro impI)
    assume inv: "contacts \<noteq> [] \<and> chunk \<noteq> []"
    then have next_chunk: "sliceIntoChunks_C contacts 3000 \<noteq> []"
      by (simp add: sliceIntoChunks_C_def js_slice_def)
    show "\<exists>e. fst res = Inl e"
    proof (cases "q (SqlInsertContacts account (map contactBind chunk)) db")
      case (Pair r db1)
      show ?thesis
      proof (cases r)
        case (Inl e)
        with 1(2) inv Pair show ?thesis by auto
      next
        case (Inr result)
        with 1(2) inv Pair
        have "f q account contacts (sliceIntoChunks_C contacts 3000) (tot + rowCount result) db1
              = Some res"
          by simp
        from 1(1)[OF this] inv next_chunk show ?thesis by simp
      qed
    qed
  qed
qed

lemma sliceIntoChunks_A_3000: "sliceIntoChunks_A arr 3000 = Some arr"
  by (simp add: sliceIntoChunks_A_flat)

lemma contactsLoop_A_leaves_by_error:
  assumes "contactsLoop_A q account contacts chunk tot ids db = Some res"
  shows "contacts \<noteq> [] \<and> chunk \<noteq> [] \<longrightarrow> (\<exists>e. fst res = Inl e)"
  using assms
proof (rule contactsLoop_A.raw_induct[where P = "\<lambda>q account contacts chunk tot ids db res.
          contacts \<noteq> [] \<and> chunk \<noteq> [] \<longrightarrow> (\<exists>e. fst res = Inl e)", rotated], goal_cases)
  case (1 f q account contacts chunk tot ids db res)
  show ?case
  proof (intro impI)
    assume inv: "contacts \<noteq> [] \<and> chunk \<noteq> []"
    show "\<exists>e. fst res = Inl e"
    proof (cases "q (SqlInsertContactsReturning account (map contactBind chunk)) db")
      case (Pair r db1)
      show ?thesis
      proof (cases r)
        case (Inl e)
        with 1(2) inv Pair show ?thesis by auto
      next
        case (Inr result)
        with 1(2) inv Pair
        have "f q account contacts contacts (tot + rowCount result)
                (ids @ map (\<lambda>r. col r ''id'') (rows result)) db1 = Some res"
          by (simp add: sliceIntoChunks_A_3000)
        from 1(1)[OF this] inv show ?thesis by simp
      qed
    qed
  qed
qed

text \<open>
  The relational database without a failing connection: every statement leaves the list
  of failures empty, and the upsert of contacts with distinct identifiers succeeds.
\<close>

lemma pg_exec_failing: "pg_exec s db = Inr (result, db1) \<Longrightarrow> pg_failing db1 = pg_failing db"
  by (cases s) (auto simp: selected_def split: if_splits option.splits prod.splits)

lemma pgClient_failing: "pg_failing (snd (pgClient s db)) = pg_failing db"
  by (auto simp: pgClient_def tick_def dest: pg_exec_failing split: sum.splits)

lemma pgClient_failing_dest: "pgClient s db = (r, db1) \<Longrightarrow> pg_failing db1 = pg_failing db"
  using pgClient_failing[of s db] by simp

lemma insertLabel_failing: "pg_failing (snd (insertLabel pgClient name account db)) = pg_failing db"
  by (auto simp: insertLabel_def dest!: pgClient_failing_dest
      split: prod.splits sum.splits if_splits list.splits)

lemma insertTag_A_failing: "pg_failing (snd (insertTag_A pgClient name n db)) = pg_failing db"
  by (auto simp: insertTag_A_def dest!: pgClient_failing_dest
      split: prod.splits sum.splits if_splits list.splits)

lemma insertTag_C_failing: "pg_failing (snd (insertTag_C pgClient name n db)) = pg_failing db"
  by (auto simp: insertTag_C_def dest!: pgClient_failing_dest
      split: prod.splits sum.splits if_splits list.splits)

lemma contactBind_identifiers: "map (\<lambda>r. snd (snd r)) (map contactBind cs) = map cr_id cs"
  by (simp add: contactBind_def)

lemma pgClient_upsert_succeeds:
  assumes "pg_failing db = []" "chunk \<noteq> []" "distinct (map cr_id chunk)"
  shows "\<exists>result db1. pgClient (SqlInsertContacts account (map contactBind chunk)) db = (Inr result, db1)"
    and "\<exists>result db1. pgClient (SqlInsertContactsReturning account (map contactBind chunk)) db
            = (Inr result, db1)"
  using assms
  by (auto simp: pgClient_def contactBind_def comp_def split: prod.splits)

lemma contactsLoop_C_pg_never_returns:
  assumes "contactsLoop_C q account contacts chunk tot db = Some res"
  shows "\<not> (q = pgClient \<and> pg_failing db = [] \<and> chunk = take 3000 contacts \<and> chunk \<noteq> []
            \<and> distinct (map cr_id chunk))"
  using assms
proof (rule contactsLoop_C.raw_induct[where P = "\<lambda>q account contacts chunk tot db res.
          \<not> (q = pgClient \<and> pg_failing db = [] \<and> chunk = take 3000 contacts \<and> chunk \<noteq> []
             \<and> distinct (map cr_id chunk))", rotated], goal_cases)
  case (1 f q account contacts chunk tot db res)
  show ?case
  proof
    assume inv: "q = pgClient \<and> pg_failing db = [] \<and> chunk = take 3000 contacts \<and> chunk \<noteq> []
        \<and> distinct (map cr_id chunk)"
    then have q: "q = pgClient" and db: "pg_failing db = []" and chunk: "chunk = take 3000 contacts"
      and ne: "chunk \<noteq> []" and dist: "distinct (map cr_id chunk)"
      by blast+
    from pgClient_upsert_succeeds(1)[OF db ne dist, of account] obtain result db1 where
      ok: "pgClient (SqlInsertContacts account (map contactBind chunk)) db = (Inr result, db1)"
      by blast
    with db have db1: "pg_failing db1 = []"
      by (auto dest: pgClient_failing_dest)
    from 1(2) ne have "(case q (SqlInsertContacts account (map contactBind chunk)) db of
           (Inl e, db1) \<Rightarrow> Some (Inl e, db1)
         | (Inr result, db1) \<Rightarrow>
             f q account contacts (sliceIntoChunks_C contacts 3000) (tot + rowCount result) db1)
        = Some res"
      by simp
    with ok q
    have "f pgClient account contacts (take 3000 contacts) (tot + rowCount result) db1 = Some res"
      by (simp add: sliceIntoChunks_C_def js_slice_def)
    from 1(1)[OF this] db1 chunk ne dist show False by simp
  qed
qed

lemma contactsLoop_A_pg_never_returns:
  assumes "contactsLoop_A q account contacts chunk tot ids db = Some res"
  shows "\<not> (q = pgClient \<and> pg_failing db = [] \<and> chunk = contacts \<and> chunk \<noteq> []
            \<and> distinct (map cr_id chunk))"
  using assms
proof (rule contactsLoop_A.raw_induct[where P = "\<lambda>q account contacts chunk tot ids db res.
          \<not> (q = pgClient \<and> pg_failing db = [] \<and> chunk = contacts \<and> chunk \<noteq> []
             \<and> distinct (map cr_id chunk))", rotated], goal_cases)
  case (1 f q account contacts chunk tot ids db res)
  show ?case
  proof
    assume inv: "q = pgClient \<and> pg_failing db = [] \<and> chunk = contacts \<and> chunk \<noteq> []
        \<and> distinct (map cr_id chunk)"
    then have q: "q = pgClient" and db: "pg_failing db = []" and chunk: "chunk = contacts"
      and ne: "chunk \<noteq> []" and dist: "distinct (map cr_id chunk)"
      by blast+
    from pgClient_upsert_succeeds(2)[OF db ne dist, of account] obtain result db1 where
      ok: "pgClient (SqlInsertContactsReturning account (map contactBind chunk)) db = (Inr result, db1)"
      by blast
    with db have db1: "pg_failing db1 = []"
      by (auto dest: pgClient_failing_dest)
    from 1(2) ne have "(case q (SqlInsertContactsReturning account (map contactBind chunk)) db of
           (Inl e, db1) \<Rightarrow> Some (Inl e, db1)
         | (Inr result, db1) \<Rightarrow>
             (case sliceIntoChunks_A contacts 3000 of
                None \<Rightarrow> None
              | Some nextChunk \<Rightarrow>
                  f q account contacts nextChunk (tot + rowCount result)
                    (ids @ map (\<lambda>r. col r ''id'') (rows result)) db1))
        = Some res"
      by simp
    with ok q
    have "f pgClient account contacts contacts (tot + rowCount result)
            (ids @ map (\<lambda>r. col r ''id'') (rows result)) db1 = Some res"
      by (simp add: sliceIntoChunks_A_3000)
    from 1(1)[OF this] db1 chunk ne dist show False by simp
  qed
qed

text \<open>
  Revision B: each round shortens the staged array, so the loops return whatever the
  database does.
\<close>

lemma contactsLoop_B_returns:
  "\<exists>res. contactsLoop_B q name account contacts chunk tot st db = Some res"
proof (induction "length contacts" arbitrary: contacts chunk tot st db rule: less_induct)
  case less
  show ?case
  proof (cases "chunk = []")
    case True
    then show ?thesis by (subst contactsLoop_B.simps) simp
  next
    case False
    show ?thesis
    proof (cases "q (SqlInsertContacts account (map contactBind chunk))
                    (insertLabels_B q name account chunk db)")
      case (Pair r db1)
      show ?thesis
      proof (cases r)
        case (Inl e)
        with False Pair show ?thesis by (subst contactsLoop_B.simps) simp
      next
        case (Inr result)
        have "\<exists>res. contactsLoop_B q name account (drop 3000 contacts) (take 3000 contacts)
                 (tot + rowCount result) (writeContacts st name (drop 3000 contacts)) db1 = Some res"
        proof (cases "contacts = []")
          case True
          then show ?thesis by (subst contactsLoop_B.simps) simp
        next
          case False
          then have "length (drop 3000 contacts) < length contacts" by simp
          from less[OF this] show ?thesis .
        qed
        with False Pair Inr show ?thesis
          by (subst contactsLoop_B.simps) (simp add: sliceIntoChunks_B_def)
      qed
    qed
  qed
qed

lemma pushMessage_not_empty: "pushMessage keyOf m message \<noteq> []"
  by (cases m) (auto simp: pushMessage_def)

lemma foldl_pushMessage_not_empty:
  "m \<noteq> [] \<or> messages \<noteq> [] \<Longrightarrow> foldl (pushMessage keyOf) m messages \<noteq> []"
  by (induction messages arbitrary: m) (auto simp: pushMessage_not_empty)

lemma createMessagesMapByPhoneNumber_B_not_empty:
  "messages \<noteq> [] \<Longrightarrow> createMessagesMapByPhoneNumber_B messages \<noteq> []"
  by (simp add: createMessagesMapByPhoneNumber_B_def foldl_pushMessage_not_empty)

lemma messagesLoop_B_returns:
  "\<exists>res. messagesLoop_B q g inbox provider name wt ordered chunk tot st db = Some res"
proof (induction "length ordered" arbitrary: ordered chunk tot st db rule: less_induct)
  case less
  show ?case
  proof (cases "chunk = []")
    case True
    then show ?thesis by (subst messagesLoop_B.simps) simp
  next
    case False
    note chunk = False createMessagesMapByPhoneNumber_B_not_empty[OF False]
    show ?thesis
    proof (cases "selectOrCreateFksFromChatwoot_B q provider inbox wt
                   (createMessagesMapByPhoneNumber_B chunk) db")
      case (Pair r db1)
      show ?thesis
      proof (cases r)
        case (Inl e)
        with chunk Pair show ?thesis by (subst messagesLoop_B.simps) simp
      next
        case (Inr fks)
        show ?thesis
        proof (cases "q (SqlInsertMsgs_B (p_account_id provider) (inbox_id inbox)
                           (msgRows_B g fks (createMessagesMapByPhoneNumber_B chunk))) db1")
          case P2: (Pair r2 db2)
          show ?thesis
          proof (cases r2)
            case I2: (Inl e)
            with chunk Pair Inr P2 show ?thesis by (subst messagesLoop_B.simps) simp
          next
            case R2: (Inr result)
            have "\<exists>res. messagesLoop_B q g inbox provider name wt (drop 4000 ordered)
                     (take 4000 ordered) (tot + rowCount result)
                     (writeMessages st name (drop 4000 ordered)) db2 = Some res"
            proof (cases "ordered = []")
              case True
              then show ?thesis by (subst messagesLoop_B.simps) simp
            next
              case False
              then have "length (drop 4000 ordered) < length ordered" by simp
              from less[OF this] show ?thesis .
            qed
            with chunk Pair Inr P2 R2 show ?thesis
              by (subst messagesLoop_B.simps) (simp add: sliceIntoChunks_B_def)
          qed
        qed
      qed
    qed
  qed
qed

lemma importHistoryContacts_B_returns:
  "\<exists>run. importHistoryContacts_B q inst provider st db = Some run"
proof -
  have "\<exists>res. contactsLoop_B q (instanceName inst) (p_account_id provider)
      (snd (sliceIntoChunks_B (case historyContacts st (instanceName inst) of
                                 Some cs \<Rightarrow> cs | None \<Rightarrow> []) 3000))
      (fst (sliceIntoChunks_B (case historyContacts st (instanceName inst) of
                                 Some cs \<Rightarrow> cs | None \<Rightarrow> []) 3000)) 0
      (writeContacts st (instanceName inst)
         (snd (sliceIntoChunks_B (case historyContacts st (instanceName inst) of
                                    Some cs \<Rightarrow> cs | None \<Rightarrow> []) 3000))) db = Some res"
    by (rule contactsLoop_B_returns)
  then obtain res where "contactsLoop_B q (instanceName inst) (p_account_id provider)
      (snd (sliceIntoChunks_B (case historyContacts st (instanceName inst) of
                                 Some cs \<Rightarrow> cs | None \<Rightarrow> []) 3000))
      (fst (sliceIntoChunks_B (case historyContacts st (instanceName inst) of
                                 Some cs \<Rightarrow> cs | None \<Rightarrow> []) 3000)) 0
      (writeContacts st (instanceName inst)
         (snd (sliceIntoChunks_B (case historyContacts st (instanceName inst) of
                                    Some cs \<Rightarrow> cs | None \<Rightarrow> []) 3000))) db = Some res" ..
  then show ?thesis
    by (cases res) (auto simp: importHistoryContacts_B_def Let_def split: sum.splits)
qed

lemma importHistoryMessages_B_returns:
  "\<exists>run. importHistoryMessages_B q g inst inbox provider st db = Some run"
proof (cases "getChatwootUser_B q provider db")
  case (Pair r db1)
  show ?thesis
  proof (cases "\<exists>u staged. r = Inr (Some u) \<and> historyMessages st (instanceName inst) = Some staged
      \<and> staged \<noteq> []")
    case False
    with Pair show ?thesis
      by (auto simp: importHistoryMessages_B_def split: sum.splits option.splits)
  next
    case True
    then obtain u staged where u: "r = Inr (Some u)"
      "historyMessages st (instanceName inst) = Some staged" "staged \<noteq> []"
      by blast
    have "\<exists>res. messagesLoop_B q g inbox provider (instanceName inst)
        (phoneNumbersWithTimestamp (createMessagesMapByPhoneNumber_B (js_sort compareMessages staged)))
        (snd (sliceIntoChunks_B (js_sort compareMessages staged) 4000))
        (fst (sliceIntoChunks_B (js_sort compareMessages staged) 4000)) 0
        (writeMessages (writeMessages st (instanceName inst) (js_sort compareMessages staged))
           (instanceName inst) (snd (sliceIntoChunks_B (js_sort compareMessages staged) 4000)))
        db1 = Some res"
      by (rule messagesLoop_B_returns)
    then obtain res where "messagesLoop_B q g inbox provider (instanceName inst)
        (phoneNumbersWithTimestamp (createMessagesMapByPhoneNumber_B (js_sort compareMessages staged)))
        (snd (sliceIntoChunks_B (js_sort compareMessages staged) 4000))
        (fst (sliceIntoChunks_B (js_sort compareMessages staged) 4000)) 0
        (writeMessages (writeMessages st (instanceName inst) (js_sort compareMessages staged))
           (instanceName inst) (snd (sliceIntoChunks_B (js_sort compareMessages staged) 4000)))
        db1 = Some res" ..
    with Pair u show ?thesis
      by (cases res) (auto simp: importHistoryMessages_B_def Let_def split: sum.splits)
  qed
qed

lemma contactsLoop_C_pg_diverges:
  assumes "pg_failing db = []" "contacts \<noteq> []" "distinct (map cr_id (take 3000 contacts))"
  shows "contactsLoop_C pgClient account contacts (take 3000 contacts) tot db = None"
proof (cases "contactsLoop_C pgClient account contacts (take 3000 contacts) tot db")
  case None
  then show ?thesis .
next
  case (Some res)
  from contactsLoop_C_pg_never_returns[OF this] assms show ?thesis by simp
qed

lemma contactsLoop_A_pg_diverges:
  assumes "pg_failing db = []" "contacts \<noteq> []" "distinct (map cr_id contacts)"
  shows "contactsLoop_A pgClient account contacts contacts tot ids db = None"
proof (cases "contactsLoop_A pgClient account contacts contacts tot ids db")
  case None
  then show ?thesis .
next
  case (Some res)
  from contactsLoop_A_pg_never_returns[OF this] assms show ?thesis by simp
qed

text \<open>
  With staged contacts of distinct identifiers, no staged message and a database whose
  connection never fails, \<^verbatim>\<open>importHistoryContacts\<close> of revisions A and C does not return.
\<close>

lemma importHistoryContacts_C_diverges:
  assumes "getHistoryMessagesLenght st inst = 0"
    and "historyContacts st (instanceName inst) = Some contacts" "contacts \<noteq> []"
    and "distinct (map cr_id (take 3000 contacts))" "pg_failing db = []"
  shows "importHistoryContacts_C pgClient createdAt inst provider st db = None"
  using assms
  by (simp add: importHistoryContacts_C_def Let_def sliceIntoChunks_C_take
      contactsLoop_C_pg_diverges insertTag_C_failing insertLabel_failing)

lemma importHistoryContacts_A_diverges:
  assumes "getHistoryMessagesLenght st inst = 0"
    and "historyContacts st (instanceName inst) = Some contacts" "contacts \<noteq> []"
    and "distinct (map cr_id contacts)" "pg_failing db = []"
  shows "importHistoryContacts_A pgClient inst provider st db = None"
  using assms
  by (simp add: importHistoryContacts_A_def Let_def sliceIntoChunks_A_3000
      contactsLoop_A_pg_diverges insertTag_A_failing insertLabel_failing)

text \<open>
  C2 (the chunk loops of the importers terminate). Revision B drains the staged array and
  its loops return for every input and database (lemmas \<open>importHistoryContacts_B_returns\<close>,
  \<open>importHistoryMessages_B_returns\<close>). In revisions A and C the loop of
  \<^verbatim>\<open>importHistoryContacts\<close> takes the same first chunk in every round (lemmas
  \<open>contactsLoop_A_leaves_by_error\<close>, \<open>contactsLoop_C_leaves_by_error\<close>: it ends only by an
  error of the insert). The theorem is the run on the scenario of the specification, the
  two contacts of the first tenant staged and the database answering every statement:
  neither revision returns.
\<close>

theorem C2_importHistoryContacts_never_returns:
  "importHistoryContacts_A pgClient tenant1 provider1 storeContacts db0 = None
   \<and> importHistoryContacts_C pgClient (Num 0) tenant1 provider1 storeContacts db0 = None"
proof -
  have staged: "historyContacts storeContacts (instanceName tenant1) = Some [alice, bob]"
    and none: "getHistoryMessagesLenght storeContacts tenant1 = 0"
    by (simp_all add: storeContacts_def addHistoryContacts_def getHistoryMessagesLenght_def
        tenant1_def tenant2_def emptyStore_def)
  have dist: "distinct (map cr_id [alice, bob])"
    by (simp add: alice_def bob_def)
  have db: "pg_failing db0 = []"
    by (simp add: db0_def)
  from importHistoryContacts_A_diverges[OF none staged _ dist db]
    importHistoryContacts_C_diverges[OF none staged _ _ db] dist
  show ?thesis by simp
qed


section \<open>Failed runs and the staged data\<close>

text \<open>
  C3 (a failed import leaves the staged contacts and messages exactly as they were).
  In revision B the staged array itself is sorted and then drained chunk by chunk before
  the rows of the chunk are inserted. The theorem is the run of revision B on the
  scenario of the specification with a connection that fails at the bulk insert of the
  messages (the fifth statement): the error is caught, nothing was inserted, and the
  staged messages of the tenant are gone. The same happens to the staged contacts when
  the connection fails at the contact insert (the fourth statement).
\<close>

theorem C3_failed_run_of_revision_B_drains_the_staged_data:
  "stagedOf storeMessages ''t1''
     = (None, Some [msg ''100@d'' 10 ''hi'', msg ''100@d'' 5 ''yo'', msg ''100@d'' 20 ''bye''],
        Some [alice, bob])
   \<and> resultOf (importHistoryMessages_B pgClient noContent tenant1 inbox1 provider1 storeMessages
                  (failingAt 4 db0u))
       = Some (Inl (PgError ''connection terminated''))
   \<and> map_option pg_messages
        (dbAfter (importHistoryMessages_B pgClient noContent tenant1 inbox1 provider1 storeMessages
                    (failingAt 4 db0u)))
       = Some []
   \<and> stagedAfter (importHistoryMessages_B pgClient noContent tenant1 inbox1 provider1 storeMessages
                     (failingAt 4 db0u)) ''t1''
       = Some (None, Some [], Some [alice, bob])
   \<and> stagedOf storeContacts ''t1'' = (None, None, Some [alice, bob])
   \<and> resultOf (importHistoryContacts_B pgClient tenant1 provider1 storeContacts (failingAt 3 db0))
       = Some (Inl (PgError ''connection terminated''))
   \<and> map_option pg_contacts
        (dbAfter (importHistoryContacts_B pgClient tenant1 provider1 storeContacts (failingAt 3 db0)))
       = Some []
   \<and> stagedAfter (importHistoryContacts_B pgClient tenant1 provider1 storeContacts (failingAt 3 db0))
        ''t1''
       = Some (None, None, Some [])"
  by code_simp

section \<open>The message insert and the key resolver on the relational database\<close>

text \<open>
  Revision B: the upsert keeps the keys (conversation id, created at) of the message
  table distinct.
\<close>

lemma upsertMessages_keys:
  "set (map messageKey (upsertMessages rs ms)) = set (map messageKey ms) \<union> set (map messageKey rs)"
proof (induction rs arbitrary: ms)
  case Nil
  then show ?case by simp
next
  case (Cons r rs)
  have same: "map messageKey (map (\<lambda>m. if messageKey m = messageKey r
                        then (fst r, fst (snd m), fst (snd (snd m)), fst (snd (snd (snd m))),
                              snd (snd (snd (snd m))))
                        else m) ms) = map messageKey ms"
    by (induction ms) (auto simp: messageKey_def)
  show ?case
    using Cons[of "ms @ [r]"]
      Cons[of "map (\<lambda>m. if messageKey m = messageKey r
                        then (fst r, fst (snd m), fst (snd (snd m)), fst (snd (snd (snd m))),
                              snd (snd (snd (snd m))))
                        else m) ms"]
    by (auto simp: same simp del: map_map)
qed

lemma upsertMessages_distinct:
  "distinct (map messageKey ms) \<Longrightarrow> distinct (map messageKey (upsertMessages rs ms))"
proof (induction rs arbitrary: ms)
  case Nil
  then show ?case by simp
next
  case (Cons r rs)
  have same: "map messageKey (map (\<lambda>m. if messageKey m = messageKey r
                        then (fst r, fst (snd m), fst (snd (snd m)), fst (snd (snd (snd m))),
                              snd (snd (snd (snd m))))
                        else m) ms) = map messageKey ms"
    by (induction ms) (auto simp: messageKey_def)
  show ?case
  proof (cases "List.member (map messageKey ms) (messageKey r)")
    case True
    with Cons.prems same
      Cons.IH[of "map (\<lambda>m. if messageKey m = messageKey r
                        then (fst r, fst (snd m), fst (snd (snd m)), fst (snd (snd (snd m))),
                              snd (snd (snd (snd m))))
                        else m) ms"]
    show ?thesis by (simp del: map_map)
  next
    case False
    with Cons.prems Cons.IH[of "ms @ [r]"] show ?thesis by simp
  qed
qed

lemma SqlInsertMsgs_B_keeps_keys_distinct:
  assumes "pgClient (SqlInsertMsgs_B account inbox rs) db = (r, db1)"
    and "distinct (map messageKey (pg_messages db))"
  shows "distinct (map messageKey (pg_messages db1))"
  using assms
  by (auto simp: pgClient_def tick_def upsertMessages_distinct split: if_splits)

text \<open>
  Revision B, two runs with the same staged message on a database with the unique index:
  one message row, one contact and one conversation.
\<close>

lemma importHistoryMessages_B_twice:
  "(case importHistoryMessages_B pgClient noContent tenant1 inbox1 provider1 storeOnce db0u of
      None \<Rightarrow> None
    | Some run1 \<Rightarrow>
        (case importHistoryMessages_B pgClient noContent tenant1 inbox1 provider1
                (addHistoryMessages (fst (snd run1)) tenant1 [hi]) (snd (snd run1)) of
           None \<Rightarrow> None
         | Some run2 \<Rightarrow>
             Some (fst run1, fst run2, pg_messages (snd (snd run2)),
                   pg_conversations (snd (snd run2)))))
   = Some (Inr (Some 1), Inr (Some 1), [(Str ''hi'', Num 1, Num 7, Num 2, Num 10)],
           [(2, Num 1, Num 7, Num 1, Num 1003)])"
  by code_simp

text \<open>
  C4 (importing the same staged message twice never gives two message rows with the same
  conversation id and created at, the insert having a conflict policy on that pair).
  Only the insert of revision B has the \<^verbatim>\<open>ON CONFLICT (conversation_id, created_at)\<close>
  clause (lemmas \<open>SqlInsertMsgs_B_keeps_keys_distinct\<close>, \<open>importHistoryMessages_B_twice\<close>).
  The inserts of revisions C and A have no conflict clause. The theorem runs both on one
  message that was staged twice, on the stock schema (no unique index on the messages):
  revision C inserts it twice in one statement, under one conversation and one
  \<^verbatim>\<open>NOW()\<close>; revision A inserts it twice under the conversation of the sender and its
  timestamp. (Revision C is stopped after its first round by a connection failure at the
  fourth statement, since its loop does not end by itself.)
\<close>

theorem C4_same_message_is_inserted_twice:
  "stagedOf storeTwice ''t1'' = (None, Some [hi, hi], None)
   \<and> map_option pg_messages
        (dbAfter (importHistoryMessages_C pgClient tenant1 provider1 storeTwice (failingAt 3 db0)))
       = Some [(Str ''hi'', Num 1, Num 7, Num 2, Num 1002),
               (Str ''hi'', Num 1, Num 7, Num 2, Num 1002)]
   \<and> map_option pg_messages
        (dbAfter (importHistoryMessages_A pgClient createsConversation77 tenant1 provider1
                    storeTwiceWithSender db0))
       = Some [(Str ''hi'', Num 1, Num 7, Num 77, Num 10),
               (Str ''hi'', Num 1, Num 7, Num 77, Num 10)]
   \<and> resultOf (importHistoryMessages_A pgClient createsConversation77 tenant1 provider1
                  storeTwiceWithSender db0)
       = Some (Inr (Some 2))"
  by code_simp

text \<open>
  Revision B, the resolver called twice, one call after the other, for a new phone
  number: the second call finds the contact with its conversation and creates nothing.
\<close>

lemma selectOrCreateFksFromChatwoot_B_twice:
  "pg_contacts
     (snd (selectOrCreateFksFromChatwoot_B pgClient provider1 inbox1
             (phoneNumbersWithTimestamp (createMessagesMapByPhoneNumber_B [hi]))
             (createMessagesMapByPhoneNumber_B [hi])
             (snd (selectOrCreateFksFromChatwoot_B pgClient provider1 inbox1
                     (phoneNumbersWithTimestamp (createMessagesMapByPhoneNumber_B [hi]))
                     (createMessagesMapByPhoneNumber_B [hi]) db0))))
     = [(1, Null, ''+100'', Num 1, ''100@d'')]
   \<and> pg_conversations
     (snd (selectOrCreateFksFromChatwoot_B pgClient provider1 inbox1
             (phoneNumbersWithTimestamp (createMessagesMapByPhoneNumber_B [hi]))
             (createMessagesMapByPhoneNumber_B [hi])
             (snd (selectOrCreateFksFromChatwoot_B pgClient provider1 inbox1
                     (phoneNumbersWithTimestamp (createMessagesMapByPhoneNumber_B [hi]))
                     (createMessagesMapByPhoneNumber_B [hi]) db0))))
     = [(2, Num 1, Num 7, Num 1, Num 1002)]"
  by code_simp

text \<open>
  C7 (two invocations of the key resolver for a brand-new phone number give exactly one
  contact and exactly one conversation). The statement of revision C is one statement,
  so two invocations run one after the other in some order; its \<^verbatim>\<open>ins2\<close> inserts a
  conversation without any condition, whether \<^verbatim>\<open>ins1\<close> inserted the contact or found it.
  The theorem runs the resolver of revision C twice for the new number \<^verbatim>\<open>100@d\<close>: one
  contact, two conversations, and each call returns the conversation it created.
\<close>

theorem C7_resolver_of_revision_C_creates_a_conversation_per_call:
  "pg_contacts db0 = [] \<and> pg_conversations db0 = []
   \<and> fst (selectOrCreateFksFromChatwoot_C pgClient provider1
             (phoneNumbersWithTimestamp (createMessagesMapByPhoneNumber_C [hi]))
             (createMessagesMapByPhoneNumber_C [hi]) db0)
     = [(''100@d'', \<lparr>fk_phone_number = Str ''100@d'', fk_contact_id = Num 1,
                      fk_conversation_id = Num 2\<rparr>)]
   \<and> fst (selectOrCreateFksFromChatwoot_C pgClient provider1
             (phoneNumbersWithTimestamp (createMessagesMapByPhoneNumber_C [hi]))
             (createMessagesMapByPhoneNumber_C [hi])
             (snd (selectOrCreateFksFromChatwoot_C pgClient provider1
                     (phoneNumbersWithTimestamp (createMessagesMapByPhoneNumber_C [hi]))
                     (createMessagesMapByPhoneNumber_C [hi]) db0)))
     = [(''100@d'', \<lparr>fk_phone_number = Str ''100@d'', fk_contact_id = Num 1,
                      fk_conversation_id = Num 3\<rparr>)]
   \<and> pg_contacts
        (snd (selectOrCreateFksFromChatwoot_C pgClient provider1
                (phoneNumbersWithTimestamp (createMessagesMapByPhoneNumber_C [hi]))
                (createMessagesMapByPhoneNumber_C [hi])
                (snd (selectOrCreateFksFromChatwoot_C pgClient provider1
                        (phoneNumbersWithTimestamp (createMessagesMapByPhoneNumber_C [hi]))
                        (createMessagesMapByPhoneNumber_C [hi]) db0))))
     = [(1, Str ''Alice'', ''+100'', Num 1, ''100@d'')]
   \<and> pg_conversations
        (snd (selectOrCreateFksFromChatwoot_C pgClient provider1
                (phoneNumbersWithTimestamp (createMessagesMapByPhoneNumber_C [hi]))
                (createMessagesMapByPhoneNumber_C [hi])
                (snd (selectOrCreateFksFromChatwoot_C pgClient provider1
                        (phoneNumbersWithTimestamp (createMessagesMapByPhoneNumber_C [hi]))
                        (createMessagesMapByPhoneNumber_C [hi]) db0))))
     = [(2, Num 1, Num 7, Num 1, Num 10), (3, Num 1, Num 7, Num 1, Num 10)]"
  by code_simp

section \<open>The provenance tag\<close>

text \<open>
  Revision A on the relational database, with a connection that does not fail: a tag
  that does not exist is created with the batch size as its count and its id returned;
  for a tag that exists the batch size is added to its count and its id returned.
\<close>

lemma insertTag_A_creates:
  assumes "pg_failing db = []" "tagsNamed name (pg_tags db) = []"
  shows "fst (insertTag_A pgClient name n db) = idOf (pg_nextId db)
       \<and> pg_tags (snd (insertTag_A pgClient name n db)) = pg_tags db @ [(pg_nextId db, name, n)]"
  using assms
  by (simp add: insertTag_A_def pgClient_def tick_def selected_def firstId_def idRow_def col_def)

lemma insertTag_A_increments:
  assumes "pg_failing db = []" "tagsNamed name (pg_tags db) = t # ts"
  shows "fst (insertTag_A pgClient name n db) = idOf (fst t)
       \<and> pg_tags (snd (insertTag_A pgClient name n db)) = map (bumpTag n name) (pg_tags db)"
  using assms
  by (simp add: insertTag_A_def pgClient_def tick_def selected_def firstId_def idRow_def col_def)

lemma bumpTag_count:
  "bumpTag n name (i, name, c) = (i, name, c + n) \<and> (name' \<noteq> name \<longrightarrow> bumpTag n name (i, name', c) = (i, name', c))"
  by (simp add: bumpTag_def)

text \<open>
  C9 (\<^verbatim>\<open>insertTag\<close> returns the id of the tenant's tag, having added the batch size to
  the count of an existing tag or created the tag with the batch size as its count).
  \<^verbatim>\<open>insertTag\<close> of revision A does so (lemmas \<open>insertTag_A_creates\<close>,
  \<open>insertTag_A_increments\<close>). \<^verbatim>\<open>insertTag\<close> of revision C is the insert alone. The theorem
  evaluates it on a database that has the tag \<open>t1\<close> with the count 5, for a batch of 2:
  with a unique index on the tag name the insert fails, the error is caught, the result is
  \<^verbatim>\<open>undefined\<close> and the count stays 5; without the index a second tag of the same name
  is created and the count of the existing one stays 5. Revision A returns the id 1 and
  leaves the count 7.
\<close>

theorem C9_insertTag_of_revision_C_on_an_existing_tag:
  "pg_tags dbTagged = [(1, ''t1'', 5)]
   \<and> fst (insertTag_C pgClient ''t1'' 2 dbTagged) = Undefined
   \<and> pg_tags (snd (insertTag_C pgClient ''t1'' 2 dbTagged)) = [(1, ''t1'', 5)]
   \<and> fst (insertTag_C pgClient ''t1'' 2 (dbTagged\<lparr>pg_uniqueTagName := False\<rparr>)) = Num 2
   \<and> pg_tags (snd (insertTag_C pgClient ''t1'' 2 (dbTagged\<lparr>pg_uniqueTagName := False\<rparr>)))
       = [(1, ''t1'', 5), (2, ''t1'', 2)]
   \<and> fst (insertTag_A pgClient ''t1'' 2 dbTagged) = Num 1
   \<and> pg_tags (snd (insertTag_A pgClient ''t1'' 2 dbTagged)) = [(1, ''t1'', 7)]"
  by code_simp

section \<open>The missing acting user\<close>

text \<open>
  C8, as amended: if the lookup of the acting user gives no user, \<^verbatim>\<open>importHistoryMessages\<close>
  throws \<^verbatim>\<open>User not found to import messages.\<close>, which its own \<^verbatim>\<open>catch\<close> logs: the call
  returns no count, the staging store is what it was, and the database is in the state
  the lookup left it in, no other statement having been sent. This holds in the three
  revisions (in revisions A and C a lookup that throws counts as no user), for every
  database and service.
\<close>

theorem C8_missing_user_aborts:
  "(fst (getChatwootUser_A q provider db) = None \<longrightarrow>
      importHistoryMessages_A q createConversation inst provider st db
        = Some (Inl userNotFound, st, snd (getChatwootUser_A q provider db)))
   \<and> (fst (getChatwootUser_B q provider db) = Inr None \<longrightarrow>
      importHistoryMessages_B q getMessageContent inst inbox provider st db
        = Some (Inl userNotFound, st, snd (getChatwootUser_B q provider db)))
   \<and> (fst (getChatwootUser_C q provider db) = None \<longrightarrow>
      importHistoryMessages_C q inst provider st db
        = Some (Inl userNotFound, st, snd (getChatwootUser_C q provider db)))
   \<and> returned (Inl userNotFound) = None"
  by (auto simp: importHistoryMessages_A_def importHistoryMessages_B_def
      importHistoryMessages_C_def returned_def split: prod.splits)

theorem C8_missing_user_aborts_witness:
  "fst (getChatwootUser_A pgClient provider1 dbNoUser) = None
   \<and> fst (getChatwootUser_B pgClient provider1 dbNoUser) = Inr None
   \<and> fst (getChatwootUser_C pgClient provider1 dbNoUser) = None
   \<and> importHistoryMessages_A pgClient createsConversation77 tenant1 provider1 storeMessages dbNoUser
       = Some (Inl userNotFound, storeMessages, tick dbNoUser)
   \<and> importHistoryMessages_B pgClient noContent tenant1 inbox1 provider1 storeMessages dbNoUser
       = Some (Inl userNotFound, storeMessages, tick dbNoUser)
   \<and> importHistoryMessages_C pgClient tenant1 provider1 storeMessages dbNoUser
       = Some (Inl userNotFound, storeMessages, tick dbNoUser)
   \<and> pg_messages (tick dbNoUser) = pg_messages dbNoUser"
proof -
  have a: "getChatwootUser_A pgClient provider1 dbNoUser = (None, tick dbNoUser)"
    and b: "getChatwootUser_B pgClient provider1 dbNoUser = (Inr None, tick dbNoUser)"
    and c: "getChatwootUser_C pgClient provider1 dbNoUser = (None, tick dbNoUser)"
    by (simp_all add: getChatwootUser_A_def getChatwootUser_B_def getChatwootUser_C_def
        pgClient_def dbNoUser_def db0_def selected_def firstRow_def provider1_def)
  from a b c
    C8_missing_user_aborts[of pgClient provider1 dbNoUser createsConversation77 tenant1
      storeMessages noContent inbox1]
  show ?thesis by (simp add: tick_def)
qed

text \<open>
  C8 as stated also says that the missing user is the one error that is fatal to
  \<^verbatim>\<open>importHistoryMessages\<close>. It is not. In this run of revision B the acting user exists
  and the connection fails at the select of the key resolver (the second statement),
  which \<^verbatim>\<open>selectOrCreateFksFromChatwoot\<close> does not catch: the error reaches the
  \<^verbatim>\<open>catch\<close> that the missing user reaches, and the call ends with it, returns no count
  and has inserted no message.
\<close>

theorem C8_counterexample_another_error_ends_the_import:
  "fst (getChatwootUser_B pgClient provider1 (failingAt 1 db0u))
     = Inr (Some [(''user_type'', Str ''administrator''), (''user_id'', Num 1)])
   \<and> resultOf (importHistoryMessages_B pgClient noContent tenant1 inbox1 provider1 storeMessages
                  (failingAt 1 db0u))
       = Some (Inl (PgError ''connection terminated''))
   \<and> returned (Inl (PgError ''connection terminated'')) = None
   \<and> map_option pg_messages
        (dbAfter (importHistoryMessages_B pgClient noContent tenant1 inbox1 provider1 storeMessages
                    (failingAt 1 db0u)))
       = Some []"
  by code_simp

section \<open>The order of the messages of one phone number\<close>

text \<open>
  The sort under a comparator that orders the elements consistently: one that is negative
  exactly when the key of its first argument is less than the key of the second, for
  keys in a linear order. The result is then in the order of the keys.
\<close>

lemma countRun_ascending:
  assumes "\<And>a b. a \<in> set (previousElement # elements) \<Longrightarrow> b \<in> set (previousElement # elements)
                 \<Longrightarrow> (cmp a b < 0) = (key a < key b)"
  shows "sorted (map key (previousElement # take (countRun cmp False previousElement elements) elements))"
  using assms
proof (induction elements arbitrary: previousElement)
  case Nil
  show ?case by simp
next
  case (Cons x xs)
  show ?case
  proof (cases "cmp x previousElement < 0")
    case True
    then show ?thesis by simp
  next
    case False
    have "(cmp x previousElement < 0) = (key x < key previousElement)"
      by (rule Cons.prems) simp_all
    with False have le: "key previousElement \<le> key x" by simp
    have "sorted (map key (x # take (countRun cmp False x xs) xs))"
    proof (rule Cons.IH)
      fix a b assume "a \<in> set (x # xs)" "b \<in> set (x # xs)"
      then show "(cmp a b < 0) = (key a < key b)"
        by (intro Cons.prems) simp_all
    qed
    with le False show ?thesis by (auto intro: order_trans)
  qed
qed

lemma countRun_descending:
  fixes key :: "'a \<Rightarrow> 'k::linorder"
  assumes "\<And>a b. a \<in> set (previousElement # elements) \<Longrightarrow> b \<in> set (previousElement # elements)
                 \<Longrightarrow> (cmp a b < 0) = (key a < key b)"
  shows "sorted_wrt (\<lambda>a b. b < a)
           (map key (previousElement # take (countRun cmp True previousElement elements) elements))"
  using assms
proof (induction elements arbitrary: previousElement)
  case Nil
  show ?case by simp
next
  case (Cons x xs)
  show ?case
  proof (cases "cmp x previousElement < 0")
    case False
    then show ?thesis by simp
  next
    case True
    have "(cmp x previousElement < 0) = (key x < key previousElement)"
      by (rule Cons.prems) simp_all
    with True have less: "key x < key previousElement" by simp
    have step: "sorted_wrt (\<lambda>a b. b < a) (map key (x # take (countRun cmp True x xs) xs))"
    proof (rule Cons.IH)
      fix a b assume "a \<in> set (x # xs)" "b \<in> set (x # xs)"
      then show "(cmp a b < 0) = (key a < key b)"
        by (intro Cons.prems) simp_all
    qed
    from less step True show ?thesis
      by (auto intro: less_trans)
  qed
qed

lemma countAndMakeRun_parts:
  "set (fst (countAndMakeRun cmp xs)) \<union> set (snd (countAndMakeRun cmp xs)) = set xs"
proof -
  have "set (take n ys) \<union> set (drop n ys) = set ys" for n and ys :: "'a list"
    by (metis append_take_drop_id set_append)
  then show ?thesis
    by (auto simp: countAndMakeRun_def Let_def split: list.splits)
qed

lemma countAndMakeRun_sorted:
  assumes "\<And>a b. a \<in> set xs \<Longrightarrow> b \<in> set xs \<Longrightarrow> (cmp a b < 0) = (key a < key b)"
  shows "sorted (map key (fst (countAndMakeRun cmp xs)))"
proof (cases xs)
  case Nil
  then show ?thesis by (simp add: countAndMakeRun_def)
next
  case (Cons x0 ys)
  show ?thesis
  proof (cases ys)
    case Nil
    with Cons show ?thesis by (simp add: countAndMakeRun_def)
  next
    case (Cons x1 rest)
    note xs = \<open>xs = x0 # ys\<close> Cons
    have k: "(cmp a b < 0) = (key a < key b)"
      if "a \<in> set (x1 # rest)" "b \<in> set (x1 # rest)" for a b
      using that by (intro assms) (simp_all add: xs)
    have first: "(cmp x1 x0 < 0) = (key x1 < key x0)"
      by (rule assms) (simp_all add: xs)
    show ?thesis
    proof (cases "cmp x1 x0 < 0")
      case False
      with first have "key x0 \<le> key x1" by simp
      moreover have "sorted (map key (x1 # take (countRun cmp False x1 rest) rest))"
        by (rule countRun_ascending) (rule k)
      ultimately show ?thesis
        using False by (auto simp: countAndMakeRun_def xs intro: order_trans)
    next
      case True
      with first have less: "key x1 < key x0" by simp
      have step: "sorted_wrt (\<lambda>a b. b < a)
                    (map key (x1 # take (countRun cmp True x1 rest) rest))"
        by (rule countRun_descending) (rule k)
      from less step
      have "sorted_wrt (\<lambda>a b. b < a)
              (map key (x0 # x1 # take (countRun cmp True x1 rest) rest))"
        by (auto intro: less_trans)
      then have "sorted_wrt (<) (rev (map key (x0 # x1 # take (countRun cmp True x1 rest) rest)))"
        by (simp only: sorted_wrt_rev)
      then have "sorted (rev (map key (x0 # x1 # take (countRun cmp True x1 rest) rest)))"
        by (rule strict_sorted_imp_sorted)
      with True show ?thesis
        by (simp add: countAndMakeRun_def xs rev_map)
    qed
  qed
qed

lemma binarySearch_position:
  fixes key :: "'a \<Rightarrow> 'k::linorder"
  assumes "\<And>b. b \<in> set workArray \<Longrightarrow> (cmp pivot b < 0) = (key pivot < key b)"
    and "sorted (map key workArray)"
    and "left \<le> right" and "right \<le> length workArray"
    and "\<forall>i<left. key (workArray ! i) \<le> key pivot"
    and "\<forall>i. right \<le> i \<and> i < length workArray \<longrightarrow> key pivot < key (workArray ! i)"
  shows "binarySearch cmp pivot workArray left right \<le> length workArray
         \<and> (\<forall>i<binarySearch cmp pivot workArray left right. key (workArray ! i) \<le> key pivot)
         \<and> (\<forall>i. binarySearch cmp pivot workArray left right \<le> i \<and> i < length workArray
                \<longrightarrow> key pivot < key (workArray ! i))"
  using assms
proof (induction cmp pivot workArray left right rule: binarySearch.induct)
  case (1 cmp pivot workArray left right)
  define mid where "mid = left + (right - left) div 2"
  show ?case
  proof (cases "left < right")
    case False
    with "1.prems"(3) have "left = right" by simp
    with False "1.prems" show ?thesis
      by (subst (1 2 3) binarySearch.simps) simp
  next
    case True
    then have mid: "left \<le> mid" "mid < right"
      by (simp_all add: mid_def)
    with "1.prems"(4) have inside: "mid < length workArray" by simp
    then have k: "(cmp pivot (workArray ! mid) < 0) = (key pivot < key (workArray ! mid))"
      by (intro "1.prems"(1)) simp
    have mono: "key (workArray ! i) \<le> key (workArray ! j)"
      if "i \<le> j" "j < length workArray" for i j
      using "1.prems"(2) that by (simp add: sorted_iff_nth_mono)
    show ?thesis
    proof (cases "cmp pivot (workArray ! mid) < 0")
      case less: True
      have "binarySearch cmp pivot workArray left mid \<le> length workArray
         \<and> (\<forall>i<binarySearch cmp pivot workArray left mid. key (workArray ! i) \<le> key pivot)
         \<and> (\<forall>i. binarySearch cmp pivot workArray left mid \<le> i \<and> i < length workArray
                \<longrightarrow> key pivot < key (workArray ! i))"
      proof (rule "1.IH"(1)[OF True, unfolded mid_def[symmetric]])
        show "cmp pivot (workArray ! mid) < 0" by (rule less)
        show "\<And>b. b \<in> set workArray \<Longrightarrow> (cmp pivot b < 0) = (key pivot < key b)"
          by (rule "1.prems"(1))
        show "sorted (map key workArray)" by (rule "1.prems"(2))
        show "left \<le> mid" by (rule mid)
        show "mid \<le> length workArray" using inside by simp
        show "\<forall>i<left. key (workArray ! i) \<le> key pivot" by (rule "1.prems"(5))
        show "\<forall>i. mid \<le> i \<and> i < length workArray \<longrightarrow> key pivot < key (workArray ! i)"
        proof (intro allI impI)
          fix i assume i: "mid \<le> i \<and> i < length workArray"
          from less k have "key pivot < key (workArray ! mid)" by simp
          also from i have "key (workArray ! mid) \<le> key (workArray ! i)"
            by (intro mono) simp_all
          finally show "key pivot < key (workArray ! i)" .
        qed
      qed
      moreover have "binarySearch cmp pivot workArray left right
                     = binarySearch cmp pivot workArray left mid"
        using True less by (subst binarySearch.simps) (simp add: mid_def)
      ultimately show ?thesis by simp
    next
      case notless: False
      have "binarySearch cmp pivot workArray (mid + 1) right \<le> length workArray
         \<and> (\<forall>i<binarySearch cmp pivot workArray (mid + 1) right. key (workArray ! i) \<le> key pivot)
         \<and> (\<forall>i. binarySearch cmp pivot workArray (mid + 1) right \<le> i \<and> i < length workArray
                \<longrightarrow> key pivot < key (workArray ! i))"
      proof (rule "1.IH"(2)[OF True, unfolded mid_def[symmetric]])
        show "\<not> cmp pivot (workArray ! mid) < 0" by (rule notless)
        show "\<And>b. b \<in> set workArray \<Longrightarrow> (cmp pivot b < 0) = (key pivot < key b)"
          by (rule "1.prems"(1))
        show "sorted (map key workArray)" by (rule "1.prems"(2))
        show "mid + 1 \<le> right" using mid by simp
        show "right \<le> length workArray" by (rule "1.prems"(4))
        show "\<forall>i. right \<le> i \<and> i < length workArray \<longrightarrow> key pivot < key (workArray ! i)"
          by (rule "1.prems"(6))
        show "\<forall>i<mid + 1. key (workArray ! i) \<le> key pivot"
        proof (intro allI impI)
          fix i assume i: "i < mid + 1"
          then have "key (workArray ! i) \<le> key (workArray ! mid)"
            using inside by (intro mono) simp_all
          also from notless k have "key (workArray ! mid) \<le> key pivot" by simp
          finally show "key (workArray ! i) \<le> key pivot" .
        qed
      qed
      moreover have "binarySearch cmp pivot workArray left right
                     = binarySearch cmp pivot workArray (mid + 1) right"
        using True notless by (subst binarySearch.simps) (simp add: mid_def)
      ultimately show ?thesis by simp
    qed
  qed
qed

lemma set_binaryInsert: "set (binaryInsert cmp sortedPart pivot) = insert pivot (set sortedPart)"
proof -
  have "set (take n ys) \<union> set (drop n ys) = set ys" for n and ys :: "'a list"
    by (metis append_take_drop_id set_append)
  then show ?thesis
    by (auto simp: binaryInsert_def Let_def)
qed

lemma sorted_binaryInsert:
  fixes key :: "'a \<Rightarrow> 'k::linorder"
  assumes k: "\<And>b. b \<in> set sortedPart \<Longrightarrow> (cmp pivot b < 0) = (key pivot < key b)"
    and s: "sorted (map key sortedPart)"
  shows "sorted (map key (binaryInsert cmp sortedPart pivot))"
proof -
  define left where "left = binarySearch cmp pivot sortedPart 0 (length sortedPart)"
  have pos: "left \<le> length sortedPart
         \<and> (\<forall>i<left. key (sortedPart ! i) \<le> key pivot)
         \<and> (\<forall>i. left \<le> i \<and> i < length sortedPart \<longrightarrow> key pivot < key (sortedPart ! i))"
    unfolding left_def
  proof (rule binarySearch_position[where key = key])
    show "\<And>b. b \<in> set sortedPart \<Longrightarrow> (cmp pivot b < 0) = (key pivot < key b)"
      by (rule k)
    show "sorted (map key sortedPart)" by (rule s)
  qed auto
  have before: "key y \<le> key pivot" if "y \<in> set (take left sortedPart)" for y
  proof -
    from that obtain i where "i < length (take left sortedPart)" "take left sortedPart ! i = y"
      by (auto simp: in_set_conv_nth)
    with pos show ?thesis by auto
  qed
  have after: "key pivot \<le> key y" if "y \<in> set (drop left sortedPart)" for y
  proof -
    from that obtain i where i: "i < length (drop left sortedPart)" "drop left sortedPart ! i = y"
      by (auto simp: in_set_conv_nth)
    then have "left + i < length sortedPart" "sortedPart ! (left + i) = y"
      by simp_all
    with pos have "key pivot < key y" by auto
    then show ?thesis by simp
  qed
  have parts: "sorted (map key (take left sortedPart))" "sorted (map key (drop left sortedPart))"
    using s by (simp_all add: sorted_wrt_take sorted_wrt_drop sorted_map)
  have "key y \<le> key z"
    if "y \<in> set (take left sortedPart)" "z \<in> set (drop left sortedPart)" for y z
    using before[OF that(1)] after[OF that(2)] by (rule order_trans)
  with parts before after show ?thesis
    by (auto simp: binaryInsert_def left_def[symmetric] sorted_append)
qed

lemma sorted_foldl_binaryInsert:
  fixes key :: "'a \<Rightarrow> 'k::linorder"
  assumes "\<And>a b. a \<in> set run \<union> set elements \<Longrightarrow> b \<in> set run \<union> set elements
                 \<Longrightarrow> (cmp a b < 0) = (key a < key b)"
    and "sorted (map key run)"
  shows "sorted (map key (foldl (binaryInsert cmp) run elements))
         \<and> set (foldl (binaryInsert cmp) run elements) = set run \<union> set elements"
  using assms
proof (induction elements arbitrary: run)
  case Nil
  then show ?case by simp
next
  case (Cons x xs)
  have s: "sorted (map key (binaryInsert cmp run x))"
  proof (rule sorted_binaryInsert)
    show "sorted (map key run)" by (rule Cons.prems(2))
    fix b assume "b \<in> set run"
    then show "(cmp x b < 0) = (key x < key b)"
      by (intro Cons.prems(1)) simp_all
  qed
  have "sorted (map key (foldl (binaryInsert cmp) (binaryInsert cmp run x) xs))
         \<and> set (foldl (binaryInsert cmp) (binaryInsert cmp run x) xs)
           = set (binaryInsert cmp run x) \<union> set xs"
  proof (rule Cons.IH[OF _ s])
    fix a b
    assume "a \<in> set (binaryInsert cmp run x) \<union> set xs" "b \<in> set (binaryInsert cmp run x) \<union> set xs"
    then show "(cmp a b < 0) = (key a < key b)"
      by (intro Cons.prems(1)) (auto simp: set_binaryInsert)
  qed
  then show ?case by (auto simp: set_binaryInsert)
qed

lemma js_sort_sorted:
  fixes key :: "'a \<Rightarrow> 'k::linorder"
  assumes "\<And>a b. a \<in> set xs \<Longrightarrow> b \<in> set xs \<Longrightarrow> (cmp a b < 0) = (key a < key b)"
  shows "sorted (map key (js_sort cmp xs)) \<and> set (js_sort cmp xs) = set xs"
proof -
  obtain run elements where r: "countAndMakeRun cmp xs = (run, elements)"
    by (cases "countAndMakeRun cmp xs")
  from countAndMakeRun_parts[of cmp xs] r have parts: "set run \<union> set elements = set xs"
    by simp
  from countAndMakeRun_sorted[of xs cmp key, OF assms] r have s: "sorted (map key run)"
    by simp
  have "sorted (map key (foldl (binaryInsert cmp) run elements))
         \<and> set (foldl (binaryInsert cmp) run elements) = set run \<union> set elements"
  proof (rule sorted_foldl_binaryInsert[OF _ s])
    fix a b assume "a \<in> set run \<union> set elements" "b \<in> set run \<union> set elements"
    with parts show "(cmp a b < 0) = (key a < key b)"
      by (intro assms) simp_all
  qed
  with parts r show ?thesis
    by (simp add: js_sort_def)
qed

text \<open>\<^verbatim>\<open>parseInt\<close> reads no further than the first \<^verbatim>\<open>@\<close>.\<close>

lemma isWhiteSpace_not_at: "isWhiteSpace c \<Longrightarrow> c \<noteq> CHR ''@''"
  by (auto simp: isWhiteSpace_def)

lemma dropWhile_takeWhile_at:
  "dropWhile isWhiteSpace (splitAt0 s) = splitAt0 (dropWhile isWhiteSpace s)"
  by (induction s) (auto simp: splitAt0_def isWhiteSpace_not_at)

lemma stripSign_splitAt0:
  "stripSign (splitAt0 s) = (fst (stripSign s), splitAt0 (snd (stripSign s)))"
  by (cases s) (auto simp: stripSign_def splitAt0_def)

lemma stripPrefix_splitAt0:
  "stripPrefix (splitAt0 s) = (fst (stripPrefix s), splitAt0 (snd (stripPrefix s)))"
proof (cases s)
  case Nil
  then show ?thesis by (simp add: stripPrefix_def splitAt0_def)
next
  case (Cons a t)
  then show ?thesis
    by (cases t) (auto simp: stripPrefix_def splitAt0_def)
qed

lemma digitIn_at: "digitIn radix CHR ''@'' = None"
  by (simp add: digitIn_def digitOf_def)

lemma digitsPrefix_splitAt0: "digitsPrefix radix (splitAt0 s) = digitsPrefix radix s"
  by (induction s) (auto simp: splitAt0_def digitIn_at split: option.splits)

lemma parseInt_splitAt0: "parseInt (splitAt0 s) = parseInt s"
  by (simp add: parseInt_def Let_def dropWhile_takeWhile_at stripSign_splitAt0
      stripPrefix_splitAt0 digitsPrefix_splitAt0)

lemma same_phone_same_parseInt:
  "phoneOf a = phoneOf b \<Longrightarrow> parseInt a = parseInt b"
  by (metis list.inject parseInt_splitAt0 phoneOf_def)


text \<open>
  The comparator of revisions B and C on identifiers that start with a number: the
  lexicographic order of (number, timestamp). The sorted array then has the messages of
  one phone number in the order of their timestamps.
\<close>

lemma allParse_parsed:
  assumes "allParse staged" "a \<in> set staged"
  obtains x where "parseInt (mr_remoteJid a) = Some x"
  using assms by (auto simp: allParse_def list_all_iff)

lemma compareMessages_parsed:
  assumes "parseInt (mr_remoteJid a) = Some x" "parseInt (mr_remoteJid b) = Some y"
  shows "(compareMessages a b < 0)
     = ((x, mr_messageTimestamp a) < (y, mr_messageTimestamp b))"
  using assms by (auto simp: compareMessages_def)

lemma sorted_by_phone:
  assumes "allParse staged"
  shows "sorted_wrt (\<lambda>a b. phoneOf (mr_remoteJid a) = phoneOf (mr_remoteJid b)
                          \<longrightarrow> mr_messageTimestamp a \<le> mr_messageTimestamp b)
           (js_sort compareMessages staged)"
proof -
  define key where "key m = (the (parseInt (mr_remoteJid m)), mr_messageTimestamp m)"
    for m :: MessageRaw
  have consistent: "(compareMessages a b < 0) = (key a < key b)"
    if ab: "a \<in> set staged" "b \<in> set staged" for a b
  proof -
    from allParse_parsed[OF assms ab(1)] obtain x where px: "parseInt (mr_remoteJid a) = Some x" .
    from allParse_parsed[OF assms ab(2)] obtain y where py: "parseInt (mr_remoteJid b) = Some y" .
    from compareMessages_parsed[OF px py] px py show ?thesis
      by (simp add: key_def)
  qed
  from js_sort_sorted[of staged compareMessages key, OF consistent]
  have "sorted_wrt (\<lambda>a b. key a \<le> key b) (js_sort compareMessages staged)"
    by (simp add: sorted_map)
  then show ?thesis
  proof (rule sorted_wrt_mono_rel[rotated])
    fix a b assume "key a \<le> key b"
    then show "phoneOf (mr_remoteJid a) = phoneOf (mr_remoteJid b)
        \<longrightarrow> mr_messageTimestamp a \<le> mr_messageTimestamp b"
      using same_phone_same_parseInt[of "mr_remoteJid a" "mr_remoteJid b"]
      by (auto simp: key_def)
  qed
qed

text \<open>The map operations.\<close>

lemma map_of_map_set: "map_of (map_set k v m) = (map_of m)(k \<mapsto> v)"
  by (induction m) (auto simp: fun_upd_twist)

lemma keys_map_set:
  "map fst (map_set k v m) = (if k \<in> set (map fst m) then map fst m else map fst m @ [k])"
  by (induction m) auto

lemma distinct_map_set: "distinct (map fst m) \<Longrightarrow> distinct (map fst (map_set k v m))"
  by (simp add: keys_map_set)

lemma groupedBy_empty: "groupedBy keyOf [] []"
  by (simp add: groupedBy_def)

lemma groupedBy_pushMessage:
  assumes "groupedBy keyOf m xs"
  shows "groupedBy keyOf (pushMessage keyOf m x) (xs @ [x])"
proof -
  from assms have d: "distinct (map fst m)"
    and g: "\<And>k. map_of m k
        = (if k \<in> keyOf ` set xs then Some (filter (\<lambda>x. keyOf x = k) xs) else None)"
    by (simp_all add: groupedBy_def)
  have nil: "filter (\<lambda>y. keyOf y = keyOf x) xs = []" if "keyOf x \<notin> keyOf ` set xs"
  proof -
    from that have "\<forall>y \<in> set xs. keyOf y \<noteq> keyOf x"
      by (metis imageI)
    then show ?thesis by (simp add: filter_empty_conv)
  qed
  have prev: "(case map_of m (keyOf x) of Some previous \<Rightarrow> previous | None \<Rightarrow> [])
      = filter (\<lambda>y. keyOf y = keyOf x) xs"
    by (cases "keyOf x \<in> keyOf ` set xs") (simp_all add: g nil)
  have "map_of (pushMessage keyOf m x) k
      = (if k \<in> keyOf ` set (xs @ [x]) then Some (filter (\<lambda>y. keyOf y = k) (xs @ [x])) else None)"
    for k
  proof (cases "k = keyOf x")
    case True
    then show ?thesis by (simp add: pushMessage_def map_of_map_set prev)
  next
    case False
    then show ?thesis by (auto simp: pushMessage_def map_of_map_set g)
  qed
  with d show ?thesis
    by (simp add: groupedBy_def pushMessage_def distinct_map_set)
qed

lemma groupedBy_foldl:
  "groupedBy keyOf m xs \<Longrightarrow> groupedBy keyOf (foldl (pushMessage keyOf) m ys) (xs @ ys)"
proof (induction ys arbitrary: m xs)
  case Nil
  then show ?case by simp
next
  case (Cons y ys)
  from Cons.IH[OF groupedBy_pushMessage[OF Cons.prems, of y]] show ?case by simp
qed

lemma groupedBy_createMessagesMapByPhoneNumber_B:
  "groupedBy (\<lambda>m. phoneOf (mr_remoteJid m)) (createMessagesMapByPhoneNumber_B xs) xs"
  using groupedBy_foldl[OF groupedBy_empty, of "\<lambda>m. phoneOf (mr_remoteJid m)" xs]
  by (simp add: createMessagesMapByPhoneNumber_B_def)

lemma groupedBy_createMessagesMapByPhoneNumber_C:
  "groupedBy mr_remoteJid (createMessagesMapByPhoneNumber_C xs) xs"
  using groupedBy_foldl[OF groupedBy_empty, of mr_remoteJid xs]
  by (simp add: createMessagesMapByPhoneNumber_C_def)

lemma groupedBy_entry:
  assumes "groupedBy keyOf m xs" "e \<in> set m"
  shows "snd e = filter (\<lambda>x. keyOf x = fst e) xs \<and> fst e \<in> keyOf ` set xs"
proof -
  from assms have d: "distinct (map fst m)"
    and g: "map_of m (fst e)
        = (if fst e \<in> keyOf ` set xs then Some (filter (\<lambda>x. keyOf x = fst e) xs) else None)"
    by (simp_all add: groupedBy_def)
  from d assms(2) have "map_of m (fst e) = Some (snd e)"
    by (cases e) simp
  with g show ?thesis
    by (cases "fst e \<in> keyOf ` set xs") simp_all
qed

lemma groupedBy_set:
  assumes "groupedBy keyOf m xs"
  shows "set (concat (map snd m)) = set xs"
proof
  show "set (concat (map snd m)) \<subseteq> set xs"
    using groupedBy_entry[OF assms] by fastforce
  show "set xs \<subseteq> set (concat (map snd m))"
  proof
    fix x assume x: "x \<in> set xs"
    with assms have "map_of m (keyOf x) = Some (filter (\<lambda>y. keyOf y = keyOf x) xs)"
      by (auto simp: groupedBy_def)
    then have "(keyOf x, filter (\<lambda>y. keyOf y = keyOf x) xs) \<in> set m"
      by (rule map_of_SomeD)
    with x show "x \<in> set (concat (map snd m))"
      by force
  qed
qed

text \<open>Order in a concatenation.\<close>

lemma sorted_wrt_concat:
  "sorted_wrt P (concat xss)
   \<longleftrightarrow> (\<forall>xs \<in> set xss. sorted_wrt P xs)
       \<and> sorted_wrt (\<lambda>xs ys. \<forall>x \<in> set xs. \<forall>y \<in> set ys. P x y) xss"
  by (induction xss) (auto simp: sorted_wrt_append)

lemma sorted_wrt_distinct_keys:
  "distinct (map f xs) \<Longrightarrow> sorted_wrt (\<lambda>a b. f a \<noteq> f b) xs"
  by (induction xs) auto

lemma groupedBy_sorted:
  assumes g: "groupedBy keyOf m xs"
    and s: "sorted_wrt (\<lambda>a b. keyOf a = keyOf b \<longrightarrow> R a b) xs"
  shows "sorted_wrt (\<lambda>a b. keyOf a = keyOf b \<longrightarrow> R a b) (concat (map snd m))"
proof -
  have each: "sorted_wrt (\<lambda>a b. keyOf a = keyOf b \<longrightarrow> R a b) (snd e)" if "e \<in> set m" for e
    using groupedBy_entry[OF g that] s by (simp add: sorted_wrt_filter)
  from g have "sorted_wrt (\<lambda>a b. fst a \<noteq> fst b) m"
    by (simp add: groupedBy_def sorted_wrt_distinct_keys)
  then have "sorted_wrt (\<lambda>e e'. \<forall>x \<in> set (snd e). \<forall>y \<in> set (snd e').
                 keyOf x = keyOf y \<longrightarrow> R x y) m"
  proof (rule sorted_wrt_mono_rel[rotated])
    fix e e' assume "e \<in> set m" "e' \<in> set m" "fst e \<noteq> fst e'"
    with groupedBy_entry[OF g, of e] groupedBy_entry[OF g, of e']
    show "\<forall>x \<in> set (snd e). \<forall>y \<in> set (snd e'). keyOf x = keyOf y \<longrightarrow> R x y"
      by auto
  qed
  with each show ?thesis
    by (simp add: sorted_wrt_concat sorted_wrt_map)
qed


text \<open>
  The rows of a round of revision B are the rows of the messages of the round, in the
  order of the round, each under the resolved pair of its phone number; a row carries
  the timestamp of its message.
\<close>

lemma msgRow_B_createdAt:
  "list_all (\<lambda>row. createdAt_B row = mr_messageTimestamp m) (msgRow_B g fks m)"
  by (simp add: msgRow_B_def createdAt_B_def split: option.splits)

lemma msgRows_B_in_the_order_of_the_map:
  "msgRows_B g fksByNumber (createMessagesMapByPhoneNumber_B chunk)
   = concat (map (\<lambda>m. msgRow_B g (map_of fksByNumber (phoneOf (mr_remoteJid m))) m)
                 (concat (map snd (createMessagesMapByPhoneNumber_B chunk))))"
proof -
  have inner: "concat (map (msgRow_B g (map_of fksByNumber (fst e))) (snd e))
      = concat (map (\<lambda>m. msgRow_B g (map_of fksByNumber (phoneOf (mr_remoteJid m))) m) (snd e))"
    if "e \<in> set (createMessagesMapByPhoneNumber_B chunk)" for e
  proof -
    from groupedBy_entry[OF groupedBy_createMessagesMapByPhoneNumber_B that]
    have "snd e = filter (\<lambda>m. phoneOf (mr_remoteJid m) = fst e) chunk"
      by simp
    then have "phoneOf (mr_remoteJid m) = fst e" if "m \<in> set (snd e)" for m
      using that by (metis (mono_tags, lifting) mem_Collect_eq set_filter)
    then have "map (msgRow_B g (map_of fksByNumber (fst e))) (snd e)
        = map (\<lambda>m. msgRow_B g (map_of fksByNumber (phoneOf (mr_remoteJid m))) m) (snd e)"
      by simp
    then show ?thesis by (rule arg_cong)
  qed
  have flat: "concat (map (\<lambda>e. concat (map h (snd e))) m) = concat (map h (concat (map snd m)))"
    for h :: "MessageRaw \<Rightarrow> (jsval \<times> jsval \<times> int \<times> jsval) list"
      and m :: "(string \<times> MessageRaw list) list"
    by (induction m) simp_all
  have "map (\<lambda>e. concat (map (msgRow_B g (map_of fksByNumber (fst e))) (snd e)))
            (createMessagesMapByPhoneNumber_B chunk)
      = map (\<lambda>e. concat (map (\<lambda>m. msgRow_B g (map_of fksByNumber (phoneOf (mr_remoteJid m))) m)
                              (snd e)))
            (createMessagesMapByPhoneNumber_B chunk)"
    by (rule map_cong[OF refl]) (rule inner)
  then have "msgRows_B g fksByNumber (createMessagesMapByPhoneNumber_B chunk)
      = concat (map (\<lambda>e. concat (map (\<lambda>m. msgRow_B g (map_of fksByNumber (phoneOf (mr_remoteJid m))) m)
                              (snd e)))
            (createMessagesMapByPhoneNumber_B chunk))"
    unfolding msgRows_B_def by (rule arg_cong)
  also have "\<dots> = concat (map (\<lambda>m. msgRow_B g (map_of fksByNumber (phoneOf (mr_remoteJid m))) m)
                 (concat (map snd (createMessagesMapByPhoneNumber_B chunk))))"
    by (rule flat)
  finally show ?thesis .
qed

text \<open>
  So in revision B, when every staged identifier starts with a number, every round binds
  the rows of one phone number in the order of the timestamps: the chunks are cut from
  the sorted array and the map of a chunk keeps the order within a key.
\<close>

lemma rounds_of_revision_B_in_order:
  assumes "allParse staged"
    and "messagesChunk \<in> set (chunksVisited_B (js_sort compareMessages staged) 4000)"
  shows "sorted_wrt (\<lambda>a b. phoneOf (mr_remoteJid a) = phoneOf (mr_remoteJid b)
                          \<longrightarrow> mr_messageTimestamp a \<le> mr_messageTimestamp b)
           (concat (map snd (createMessagesMapByPhoneNumber_B messagesChunk)))"
proof -
  have "concat (chunksVisited_B (js_sort compareMessages staged) 4000)
      = js_sort compareMessages staged"
    by (rule chunksVisited_B_concat) simp
  with sorted_by_phone[OF assms(1)]
  have "sorted_wrt (\<lambda>a b. phoneOf (mr_remoteJid a) = phoneOf (mr_remoteJid b)
                          \<longrightarrow> mr_messageTimestamp a \<le> mr_messageTimestamp b)
          (concat (chunksVisited_B (js_sort compareMessages staged) 4000))"
    by (simp only:)
  with assms(2)
  have "sorted_wrt (\<lambda>a b. phoneOf (mr_remoteJid a) = phoneOf (mr_remoteJid b)
                          \<longrightarrow> mr_messageTimestamp a \<le> mr_messageTimestamp b) messagesChunk"
    unfolding sorted_wrt_concat by blast
  with groupedBy_createMessagesMapByPhoneNumber_B show ?thesis
    by (rule groupedBy_sorted)
qed

text \<open>
  On the three messages of \<^verbatim>\<open>100@d\<close>, staged at 10, 5 and 20, revision B commits the rows
  in the order of the timestamps, each with the timestamp of its message as creation time.
\<close>

lemma importHistoryMessages_B_commits_in_order:
  "map_option pg_messages
     (dbAfter (importHistoryMessages_B pgClient noContent tenant1 inbox1 provider1
                 storeMessages db0u))
   = Some [(Str ''yo'', Num 1, Num 7, Num 2, Num 5),
           (Str ''hi'', Num 1, Num 7, Num 2, Num 10),
           (Str ''bye'', Num 1, Num 7, Num 2, Num 20)]"
  by code_simp

text \<open>
  Claim C5. For any two staged messages \<open>a\<close> and \<open>b\<close> with the same derived phone number,
  if the timestamp of \<open>a\<close> is less than that of \<open>b\<close>, \<open>a\<close> is committed with a creation
  time equal to or earlier than that of \<open>b\<close>: the rows of a phone number are inserted in
  non-decreasing order of the timestamps.

  The code does not do this on two inputs.

  Revision B, with a status update among the staged messages. \<^verbatim>\<open>parseInt\<close> of
  \<^verbatim>\<open>status@broadcast\<close> is \<^verbatim>\<open>NaN\<close>, so the comparator falls back to the timestamps
  whenever that message is one of the two, and is no order any more. The sort sees the
  four messages as one descending run and reverses it, which puts the message of
  \<^verbatim>\<open>100@d\<close> at 10 before the one at 5. The importer returns 4, having inserted the row
  of timestamp 10 of the phone number \<^verbatim>\<open>+100\<close> before its row of timestamp 5.

  Revision C, with the three messages of \<^verbatim>\<open>100@d\<close> at 10, 5 and 20. The creation time of
  a row is \<^verbatim>\<open>NOW()\<close>, and the loop runs again on the same chunk: the message at 5 is
  committed again in the second round, at the time 1004, after the message at 20 was
  committed in the first round, at 1002. (The connection fails at the seventh statement
  here, the insert of the third round, which is what ends the call.)
\<close>

theorem C5_rows_of_a_phone_number_out_of_timestamp_order:
  "historyMessages storeBroadcast (instanceName tenant1)
     = Some [msg ''100@d'' 5 ''yo'', msg ''50@d'' 20 ''far'', msg ''status@broadcast'' 15 ''story'',
             msg ''100@d'' 10 ''hi'']
   \<and> parseInt ''status@broadcast'' = None
   \<and> js_sort compareMessages chatBroadcast
       = [msg ''100@d'' 10 ''hi'', msg ''status@broadcast'' 15 ''story'', msg ''50@d'' 20 ''far'',
          msg ''100@d'' 5 ''yo'']
   \<and> resultOf (importHistoryMessages_B pgClient noContent tenant1 inbox1 provider1
                  storeBroadcast db0u)
       = Some (Inr (Some 4))
   \<and> map_option pg_messages
         (dbAfter (importHistoryMessages_B pgClient noContent tenant1 inbox1 provider1
                     storeBroadcast db0u))
       = Some [(Str ''hi'', Num 1, Num 7, Num 2, Num 10),
               (Str ''yo'', Num 1, Num 7, Num 2, Num 5),
               (Str ''story'', Num 1, Num 7, Num 4, Num 15),
               (Str ''far'', Num 1, Num 7, Num 6, Num 20)]
   \<and> historyMessages storeMessages (instanceName tenant1)
       = Some [msg ''100@d'' 10 ''hi'', msg ''100@d'' 5 ''yo'', msg ''100@d'' 20 ''bye'']
   \<and> resultOf (importHistoryMessages_C pgClient tenant1 provider1 storeMessages
                  (failingAt 6 db0))
       = Some (Inl (PgError ''connection terminated''))
   \<and> map_option pg_messages
         (dbAfter (importHistoryMessages_C pgClient tenant1 provider1 storeMessages
                     (failingAt 6 db0)))
       = Some [(Str ''yo'', Num 1, Num 7, Num 2, Num 1002),
               (Str ''hi'', Num 1, Num 7, Num 2, Num 1002),
               (Str ''bye'', Num 1, Num 7, Num 2, Num 1002),
               (Str ''yo'', Num 1, Num 7, Num 3, Num 1004),
               (Str ''hi'', Num 1, Num 7, Num 3, Num 1004),
               (Str ''bye'', Num 1, Num 7, Num 3, Num 1004)]"
  by code_simp

end
